theory Spec2Isabelle
  imports Main "HOL-Library.Word" "HOL-Library.Monad_Syntax"
begin

unbundle bit_operations_syntax

section \<open>libEPOS over CAN: data model\<close>

text \<open>
  The driver of \<^verbatim>\<open>epos.c\<close> talks to an EPOS motor controller over CAN. A CAN frame
  (\<^verbatim>\<open>CanRxMsgTypeDef\<close>, \<^verbatim>\<open>CanTxMsgTypeDef\<close> of the HAL) is a record of the fields the
  driver uses: the 11-bit identifier \<^verbatim>\<open>StdId\<close> (a \<^verbatim>\<open>uint32_t\<close>), the frame kind
  \<^verbatim>\<open>IDE\<close> and \<^verbatim>\<open>RTR\<close>, the length \<^verbatim>\<open>DLC\<close> and the eight payload bytes \<^verbatim>\<open>Data[8]\<close>.
  The payload is a list; the driver indexes it with the constants 0..7 only.
\<close>

record CanMsg =
  StdId :: "32 word"
  IDE :: "32 word"
  RTR :: "32 word"
  DLC :: "32 word"
  Data :: "8 word list"

type_synonym CanRxMsgTypeDef = CanMsg
type_synonym CanTxMsgTypeDef = CanMsg

definition CAN_ID_STD :: "32 word" where
  "CAN_ID_STD = 0"

definition CAN_RTR_DATA :: "32 word" where
  "CAN_RTR_DATA = 0"

text \<open>
  \<^verbatim>\<open>epos_t\<close> of \<^verbatim>\<open>epos.h\<close>, without the HAL handle \<^verbatim>\<open>dev\<close> and the HAL's own
  receive buffer \<^verbatim>\<open>RxMessage\<close>. \<^verbatim>\<open>int32_t\<close> fields are 32-bit words (read with
  \<^term>\<open>sint\<close>).
\<close>

record epos_t =
  Node_ID :: "8 word"
  TxMessage :: CanTxMsgTypeDef
  SDOMsg :: CanRxMsgTypeDef
  ErrFlag :: bool
  Dev_Err :: "16 word"
  SDORcvFlag :: bool
  PDO1Msg :: CanRxMsgTypeDef
  PDO1RcvFlag :: bool
  PDO2Msg :: CanRxMsgTypeDef
  PDO2RcvFlag :: bool
  PDO3Msg :: CanRxMsgTypeDef
  PDO3RcvFlag :: bool
  PDO4Msg :: CanRxMsgTypeDef
  PDO4RcvFlag :: bool
  CurProfile :: "8 word"
  TxPosition :: "32 word"
  RxPosition :: "32 word"
  TxVelocity :: "32 word"
  RxVelocity :: "32 word"
  E_error :: "32 word"

section \<open>Status word\<close>

text \<open>The single bits of the status word, \<^verbatim>\<open>E_BIT00\<close> .. \<^verbatim>\<open>E_BIT15\<close>.\<close>

definition E_BIT15 :: "16 word" where "E_BIT15 = 0x8000"
definition E_BIT14 :: "16 word" where "E_BIT14 = 0x4000"
definition E_BIT13 :: "16 word" where "E_BIT13 = 0x2000"
definition E_BIT12 :: "16 word" where "E_BIT12 = 0x1000"
definition E_BIT11 :: "16 word" where "E_BIT11 = 0x0800"
definition E_BIT10 :: "16 word" where "E_BIT10 = 0x0400"
definition E_BIT09 :: "16 word" where "E_BIT09 = 0x0200"
definition E_BIT08 :: "16 word" where "E_BIT08 = 0x0100"
definition E_BIT07 :: "16 word" where "E_BIT07 = 0x0080"
definition E_BIT06 :: "16 word" where "E_BIT06 = 0x0040"
definition E_BIT05 :: "16 word" where "E_BIT05 = 0x0020"
definition E_BIT04 :: "16 word" where "E_BIT04 = 0x0010"
definition E_BIT03 :: "16 word" where "E_BIT03 = 0x0008"
definition E_BIT02 :: "16 word" where "E_BIT02 = 0x0004"
definition E_BIT01 :: "16 word" where "E_BIT01 = 0x0002"
definition E_BIT00 :: "16 word" where "E_BIT00 = 0x0001"

text \<open>\<^verbatim>\<open>bitcmp\<close>: are all bits of \<open>b\<close> set in \<open>a\<close>? The C function returns 1 or 0.\<close>

definition bitcmp :: "16 word \<Rightarrow> 16 word \<Rightarrow> bool" where
  "bitcmp a b = ((a AND b) = b)"

text \<open>
  The cascade of twelve tests that \<^verbatim>\<open>checkEPOSstate\<close> runs on the status word it has
  read, in the order of the source; \<open>-2\<close> is the result for an unknown state.
\<close>

definition state_of_statusword :: "16 word \<Rightarrow> int" where
  "state_of_statusword w =
    (if \<not> bitcmp w E_BIT00 \<and> \<not> bitcmp w E_BIT01
        \<and> \<not> bitcmp w E_BIT02 \<and> \<not> bitcmp w E_BIT03
        \<and> \<not> bitcmp w E_BIT04 \<and> \<not> bitcmp w E_BIT05
        \<and> \<not> bitcmp w E_BIT06 \<and> \<not> bitcmp w E_BIT08
        \<and> \<not> bitcmp w E_BIT14 then 0
     else if \<not> bitcmp w E_BIT00 \<and> \<not> bitcmp w E_BIT01
        \<and> \<not> bitcmp w E_BIT02 \<and> \<not> bitcmp w E_BIT03
        \<and> \<not> bitcmp w E_BIT04 \<and> \<not> bitcmp w E_BIT05
        \<and> \<not> bitcmp w E_BIT06 \<and> bitcmp w E_BIT08
        \<and> \<not> bitcmp w E_BIT14 then 1
     else if \<not> bitcmp w E_BIT00 \<and> \<not> bitcmp w E_BIT01
        \<and> \<not> bitcmp w E_BIT02 \<and> \<not> bitcmp w E_BIT03
        \<and> \<not> bitcmp w E_BIT04 \<and> \<not> bitcmp w E_BIT05
        \<and> bitcmp w E_BIT06 \<and> bitcmp w E_BIT08
        \<and> \<not> bitcmp w E_BIT14 then 2
     else if bitcmp w E_BIT00 \<and> \<not> bitcmp w E_BIT01
        \<and> \<not> bitcmp w E_BIT02 \<and> \<not> bitcmp w E_BIT03
        \<and> \<not> bitcmp w E_BIT04 \<and> bitcmp w E_BIT05
        \<and> \<not> bitcmp w E_BIT06 \<and> bitcmp w E_BIT08
        \<and> \<not> bitcmp w E_BIT14 then 3
     else if bitcmp w E_BIT00 \<and> bitcmp w E_BIT01
        \<and> \<not> bitcmp w E_BIT02 \<and> \<not> bitcmp w E_BIT03
        \<and> \<not> bitcmp w E_BIT04 \<and> bitcmp w E_BIT05
        \<and> \<not> bitcmp w E_BIT06 \<and> bitcmp w E_BIT08
        \<and> \<not> bitcmp w E_BIT14 then 4
     else if bitcmp w E_BIT00 \<and> bitcmp w E_BIT01
        \<and> \<not> bitcmp w E_BIT02 \<and> \<not> bitcmp w E_BIT03
        \<and> \<not> bitcmp w E_BIT04 \<and> bitcmp w E_BIT05
        \<and> \<not> bitcmp w E_BIT06 \<and> bitcmp w E_BIT08
        \<and> bitcmp w E_BIT14 then 5
     else if bitcmp w E_BIT00 \<and> bitcmp w E_BIT01
        \<and> \<not> bitcmp w E_BIT02 \<and> \<not> bitcmp w E_BIT03
        \<and> bitcmp w E_BIT04 \<and> bitcmp w E_BIT05
        \<and> \<not> bitcmp w E_BIT06 \<and> bitcmp w E_BIT08
        \<and> bitcmp w E_BIT14 then 6
     else if bitcmp w E_BIT00 \<and> bitcmp w E_BIT01
        \<and> bitcmp w E_BIT02 \<and> \<not> bitcmp w E_BIT03
        \<and> bitcmp w E_BIT04 \<and> bitcmp w E_BIT05
        \<and> \<not> bitcmp w E_BIT06 \<and> bitcmp w E_BIT08
        \<and> \<not> bitcmp w E_BIT14 then 7
     else if bitcmp w E_BIT00 \<and> bitcmp w E_BIT01
        \<and> bitcmp w E_BIT02 \<and> \<not> bitcmp w E_BIT03
        \<and> bitcmp w E_BIT04 \<and> \<not> bitcmp w E_BIT05
        \<and> \<not> bitcmp w E_BIT06 \<and> bitcmp w E_BIT08
        \<and> \<not> bitcmp w E_BIT14 then 8
     else if bitcmp w E_BIT00 \<and> bitcmp w E_BIT01
        \<and> bitcmp w E_BIT02 \<and> bitcmp w E_BIT03
        \<and> \<not> bitcmp w E_BIT04 \<and> \<not> bitcmp w E_BIT05
        \<and> \<not> bitcmp w E_BIT06 \<and> bitcmp w E_BIT08
        \<and> \<not> bitcmp w E_BIT14 then 9
     else if bitcmp w E_BIT00 \<and> bitcmp w E_BIT01
        \<and> bitcmp w E_BIT02 \<and> bitcmp w E_BIT03
        \<and> bitcmp w E_BIT04 \<and> \<not> bitcmp w E_BIT05
        \<and> \<not> bitcmp w E_BIT06 \<and> bitcmp w E_BIT08
        \<and> \<not> bitcmp w E_BIT14 then 10
     else if \<not> bitcmp w E_BIT00 \<and> \<not> bitcmp w E_BIT01
        \<and> \<not> bitcmp w E_BIT02 \<and> bitcmp w E_BIT03
        \<and> \<not> bitcmp w E_BIT04 \<and> \<not> bitcmp w E_BIT05
        \<and> \<not> bitcmp w E_BIT06 \<and> bitcmp w E_BIT08
        \<and> \<not> bitcmp w E_BIT14 then 11
     else -2)"

text \<open>
  The table of the firmware specification as the comments of \<^verbatim>\<open>checkEPOSstate\<close> give
  it: the bits a pattern fixes (0 to 6, 8 and 14) and, for the states 0 to 11 in this
  order, the values they must have.
\<close>

definition state_mask :: "16 word" where
  "state_mask = 0x417F"

definition state_patterns :: "16 word list" where
  "state_patterns =
    [0x0000, 0x0100, 0x0140, 0x0121, 0x0123, 0x4123,
     0x4133, 0x0137, 0x0117, 0x010F, 0x011F, 0x0108]"

definition matching_states :: "16 word \<Rightarrow> nat list" where
  "matching_states w =
     filter (\<lambda>k. w AND state_mask = state_patterns ! k) [0..<length state_patterns]"

definition decode :: "16 word \<Rightarrow> int" where
  "decode w = (case matching_states w of [] \<Rightarrow> -2 | k # _ \<Rightarrow> int k)"

section \<open>Inbound frames: \<^verbatim>\<open>processCANMsg\<close> and \<^verbatim>\<open>processPDOMessage\<close>\<close>

text \<open>
  The little-endian 32-bit value of four payload bytes starting at index \<open>k\<close>, as the
  source computes it: \<^verbatim>\<open>(Data[k+3] << 24) + (Data[k+2] << 16) + (Data[k+1] << 8) + Data[k]\<close>
  on 32-bit integers. The 16-bit variant is the one of the emergency frame.
\<close>

definition le32 :: "8 word list \<Rightarrow> nat \<Rightarrow> 32 word" where
  "le32 d k = push_bit 24 (ucast (d ! (k + 3))) + push_bit 16 (ucast (d ! (k + 2)))
              + push_bit 8 (ucast (d ! (k + 1))) + ucast (d ! k)"

definition le16 :: "8 word list \<Rightarrow> 16 word" where
  "le16 d = push_bit 8 (ucast (d ! 1)) + ucast (d ! 0)"

text \<open>
  The chain of comparisons that the body of the \<^verbatim>\<open>for\<close> loop of \<^verbatim>\<open>processCANMsg\<close>
  runs for one device: the updated device when the device claims the frame (the
  branches that end in \<^verbatim>\<open>break\<close>), \<open>None\<close> when no comparison holds. The identifier
  is compared with \<^verbatim>\<open>Node_ID + offset\<close>, computed on integers wider than the node id.
\<close>

definition claim :: "CanRxMsgTypeDef \<Rightarrow> epos_t \<Rightarrow> epos_t option" where
  "claim m e =
    (if StdId m = ucast (Node_ID e) + 0x180 then Some (e\<lparr>PDO1Msg := m, PDO1RcvFlag := True\<rparr>)
     else if StdId m = ucast (Node_ID e) + 0x280 then Some (e\<lparr>PDO2Msg := m, PDO2RcvFlag := True\<rparr>)
     else if StdId m = ucast (Node_ID e) + 0x380 then Some (e\<lparr>PDO3Msg := m, PDO3RcvFlag := True\<rparr>)
     else if StdId m = ucast (Node_ID e) + 0x480 then Some (e\<lparr>PDO4Msg := m, PDO4RcvFlag := True\<rparr>)
     else if StdId m = ucast (Node_ID e) + 0x580 then Some (e\<lparr>SDOMsg := m, SDORcvFlag := True\<rparr>)
     else if StdId m = ucast (Node_ID e) + 0x80
       then Some (e\<lparr>Dev_Err := le16 (Data m), ErrFlag := True\<rparr>)
     else None)"

text \<open>
  The \<^verbatim>\<open>for\<close> loop over the device array \<^verbatim>\<open>epos[0..num-1]\<close>, an array of pointers: a
  null entry is skipped, the first device that claims the frame ends the loop. The
  second component is the test \<^verbatim>\<open>i == num\<close> after the loop, under which the frame is
  reported as one that cannot be processed.
\<close>

fun scan :: "CanRxMsgTypeDef \<Rightarrow> epos_t option list \<Rightarrow> epos_t option list \<times> bool" where
  "scan m [] = ([], True)"
| "scan m (None # es) = (case scan m es of (es', u) \<Rightarrow> (None # es', u))"
| "scan m (Some e # es) =
    (case claim m e of
       Some e' \<Rightarrow> (Some e' # es, False)
     | None \<Rightarrow> (case scan m es of (es', u) \<Rightarrow> (Some e # es', u)))"

text \<open>
  The \<^verbatim>\<open>while (pCANMsg > 0)\<close> loop: the buffer \<^verbatim>\<open>CANMsgBuf\<close> is emptied from its top
  entry \<^verbatim>\<open>CANMsgBuf[pCANMsg-1]\<close> down to entry 0. The receive callback stores a frame at
  \<^verbatim>\<open>CANMsgBuf[pCANMsg]\<close> and increments \<^verbatim>\<open>pCANMsg\<close>, so entry 0 is the frame that
  arrived first. The result carries the identifiers of the reported frames.
\<close>

fun drain :: "CanRxMsgTypeDef list \<Rightarrow> nat \<Rightarrow> epos_t option list
    \<Rightarrow> epos_t option list \<times> 32 word list" where
  "drain buf 0 es = (es, [])"
| "drain buf (Suc p) es =
    (case scan (buf ! p) es of
       (es', u) \<Rightarrow> (case drain buf p es' of
          (es'', r) \<Rightarrow> (es'', (if u then [StdId (buf ! p)] else []) @ r)))"

text \<open>The body of the loop of \<^verbatim>\<open>processPDOMessage\<close> for one device.\<close>

definition decodePDO :: "epos_t \<Rightarrow> epos_t" where
  "decodePDO e =
    (let e1 = (if PDO3RcvFlag e
               then e\<lparr>RxPosition := le32 (Data (PDO3Msg e)) 2, PDO3RcvFlag := False\<rparr>
               else e)
     in if PDO4RcvFlag e1
        then e1\<lparr>RxVelocity := le32 (Data (PDO4Msg e1)) 2, PDO4RcvFlag := False\<rparr>
        else e1)"

text \<open>
  \<^verbatim>\<open>processPDOMessage\<close> dereferences every entry of the array without the null test of
  \<^verbatim>\<open>processCANMsg\<close>; a null entry is a fault, the result \<open>None\<close>.
\<close>

fun processPDOMessage :: "epos_t option list \<Rightarrow> epos_t option list option" where
  "processPDOMessage [] = Some []"
| "processPDOMessage (None # es) = None"
| "processPDOMessage (Some e # es) =
    (case processPDOMessage es of None \<Rightarrow> None | Some es' \<Rightarrow> Some (Some (decodePDO e) # es'))"

text \<open>
  \<^verbatim>\<open>processCANMsg\<close>: the buffer with its fill level \<^verbatim>\<open>pCANMsg\<close> and the device array;
  the result is the array after the PDO pass and the reported identifiers.
\<close>

definition processCANMsg :: "CanRxMsgTypeDef list \<Rightarrow> nat \<Rightarrow> epos_t option list
    \<Rightarrow> (epos_t option list \<times> 32 word list) option" where
  "processCANMsg buf pCANMsg es =
    (case drain buf pCANMsg es of
       (es', r) \<Rightarrow> (case processPDOMessage es' of None \<Rightarrow> None | Some es'' \<Rightarrow> Some (es'', r)))"

text \<open>
  The channels of the offset table of the specification, and what delivering a frame
  to a channel of a device means there: the frame is copied into the slot of the channel
  and the flag of the slot is set; the emergency channel keeps the 16-bit error code of
  the frame.
\<close>

datatype channel = EMCY | PDO1 | PDO2 | PDO3 | PDO4 | SDO

fun offset :: "channel \<Rightarrow> 32 word" where
  "offset EMCY = 0x80"
| "offset PDO1 = 0x180"
| "offset PDO2 = 0x280"
| "offset PDO3 = 0x380"
| "offset PDO4 = 0x480"
| "offset SDO = 0x580"

fun deliver :: "channel \<Rightarrow> CanRxMsgTypeDef \<Rightarrow> epos_t \<Rightarrow> epos_t" where
  "deliver EMCY m e = e\<lparr>Dev_Err := le16 (Data m), ErrFlag := True\<rparr>"
| "deliver PDO1 m e = e\<lparr>PDO1Msg := m, PDO1RcvFlag := True\<rparr>"
| "deliver PDO2 m e = e\<lparr>PDO2Msg := m, PDO2RcvFlag := True\<rparr>"
| "deliver PDO3 m e = e\<lparr>PDO3Msg := m, PDO3RcvFlag := True\<rparr>"
| "deliver PDO4 m e = e\<lparr>PDO4Msg := m, PDO4RcvFlag := True\<rparr>"
| "deliver SDO m e = e\<lparr>SDOMsg := m, SDORcvFlag := True\<rparr>"

definition addressed :: "CanRxMsgTypeDef \<Rightarrow> channel \<Rightarrow> epos_t \<Rightarrow> bool" where
  "addressed m c e = (StdId m = ucast (Node_ID e) + offset c)"

text \<open>
  The receive callback on a device array. \<^verbatim>\<open>HAL_CAN_RxCpltCallback\<close> is the only writer
  of \<^verbatim>\<open>CANMsgBuf\<close> and \<^verbatim>\<open>pCANMsg\<close>: it stores the frame at \<^verbatim>\<open>CANMsgBuf[pCANMsg]\<close>,
  increments \<^verbatim>\<open>pCANMsg\<close> and calls \<^verbatim>\<open>processCANMsg\<close>, which leaves \<^verbatim>\<open>pCANMsg\<close> at 0. So
  every call finds the buffer empty and runs the pass on the one frame that has arrived.
  \<open>receive\<close> hands the frames of a list to the callback in their order of arrival.
\<close>

definition RxCplt_array :: "CanRxMsgTypeDef \<Rightarrow> epos_t option list \<Rightarrow> epos_t option list option" where
  "RxCplt_array m es = map_option fst (processCANMsg [m] 1 es)"

fun receive :: "CanRxMsgTypeDef list \<Rightarrow> epos_t option list \<Rightarrow> epos_t option list option" where
  "receive [] es = Some es"
| "receive (m # fs) es = (case RxCplt_array m es of None \<Rightarrow> None | Some es' \<Rightarrow> receive fs es')"

text \<open>
  What one round of the \<^verbatim>\<open>while\<close> loop, and what one call of the callback, does to a
  single device of an array without null entries and with pairwise different node ids.
\<close>

definition step :: "CanRxMsgTypeDef \<Rightarrow> epos_t \<Rightarrow> epos_t" where
  "step m e = (case claim m e of Some e' \<Rightarrow> e' | None \<Rightarrow> e)"

definition rx1 :: "CanRxMsgTypeDef \<Rightarrow> epos_t \<Rightarrow> epos_t" where
  "rx1 m e = decodePDO (step m e)"

text \<open>
  The terms of the specification: the most recently arrived frame of a list, given in
  order of arrival, that is addressed to a channel of a device; and the number with the
  base-256 digits \<open>b0\<close> (lowest) to \<open>b3\<close>, the little-endian reading of four bytes.
\<close>

definition last_on :: "channel \<Rightarrow> epos_t \<Rightarrow> CanRxMsgTypeDef list \<Rightarrow> CanRxMsgTypeDef option" where
  "last_on c e fs = find (\<lambda>m. addressed m c e) (rev fs)"

definition le_bytes :: "8 word \<Rightarrow> 8 word \<Rightarrow> 8 word \<Rightarrow> 8 word \<Rightarrow> 32 word" where
  "le_bytes b0 b1 b2 b3 =
     of_nat (unat b0 + 256 * unat b1 + 65536 * unat b2 + 16777216 * unat b3)"

text \<open>Frames and a device for the examples.\<close>

definition frame :: "32 word \<Rightarrow> 8 word list \<Rightarrow> CanMsg" where
  "frame i d = \<lparr>StdId = i, IDE = 0, RTR = 0, DLC = 8, Data = d\<rparr>"

definition idle_epos :: "8 word \<Rightarrow> epos_t" where
  "idle_epos n =
    \<lparr>Node_ID = n, TxMessage = frame 0 [0, 0, 0, 0, 0, 0, 0, 0],
     SDOMsg = frame 0 [0, 0, 0, 0, 0, 0, 0, 0], ErrFlag = False, Dev_Err = 0,
     SDORcvFlag = False,
     PDO1Msg = frame 0 [0, 0, 0, 0, 0, 0, 0, 0], PDO1RcvFlag = False,
     PDO2Msg = frame 0 [0, 0, 0, 0, 0, 0, 0, 0], PDO2RcvFlag = False,
     PDO3Msg = frame 0 [0, 0, 0, 0, 0, 0, 0, 0], PDO3RcvFlag = False,
     PDO4Msg = frame 0 [0, 0, 0, 0, 0, 0, 0, 0], PDO4RcvFlag = False,
     CurProfile = 0, TxPosition = 0, RxPosition = 0, TxVelocity = 0, RxVelocity = 0,
     E_error = 0\<rparr>"

section \<open>The driver and its environment\<close>

text \<open>
  The state the functions of \<^verbatim>\<open>epos.c\<close> run on: the globals \<^verbatim>\<open>SDOBusy\<close>,
  \<^verbatim>\<open>CAN_RxReady\<close> and \<^verbatim>\<open>CAN_TxReady\<close>, the device object, and the environment of
  the driver, which is the CAN peripheral behind the HAL.
  \<^item> \<open>epos\<close> is the device object. The application's device array, which the receive
    callback hands to \<^verbatim>\<open>processCANMsg\<close>, is declared outside the library; here it holds
    this one device.
  \<^item> \<open>hal_tx\<close> holds the outcomes of the next calls of \<^verbatim>\<open>HAL_CAN_Transmit_IT\<close>
    (\<open>True\<close> for \<^verbatim>\<open>HAL_OK\<close>); once it is used up the peripheral accepts every frame.
  \<^item> \<open>irqs\<close> holds, for each of the next calls of \<^verbatim>\<open>HAL_Delay\<close>, the interrupts
    that fire while the driver sleeps: transmissions that complete and frames that
    arrive. Once it is used up nothing happens on the bus any more.
  \<^item> \<open>wire\<close> is the log of the frames the peripheral has accepted for transmission.
  \<^item> \<open>clock_ms\<close> adds up the milliseconds the driver has asked \<^verbatim>\<open>HAL_Delay\<close> to sleep.
  Output on the debug terminal (\<^verbatim>\<open>SEGGER_RTT_printf\<close>) is not part of the state.
\<close>

datatype irq = TxCplt | RxCplt CanRxMsgTypeDef

record sys =
  SDOBusy :: bool
  CAN_RxReady :: bool
  CAN_TxReady :: bool
  epos :: epos_t
  hal_tx :: "bool list"
  irqs :: "irq list list"
  wire :: "CanTxMsgTypeDef list"
  clock_ms :: nat

text \<open>An argument of type \<^verbatim>\<open>epos_t *\<close>: the null pointer or the address of the device.\<close>

datatype epos_ptr = NULL | Ptr

definition HAL_CAN_TxCpltCallback :: "sys \<Rightarrow> sys" where
  "HAL_CAN_TxCpltCallback s = s\<lparr>CAN_TxReady := True\<rparr>"

text \<open>
  \<^verbatim>\<open>HAL_CAN_RxCpltCallback\<close> stores the frame at \<^verbatim>\<open>CANMsgBuf[pCANMsg]\<close>, increments
  \<^verbatim>\<open>pCANMsg\<close>, sets \<^verbatim>\<open>CAN_RxReady\<close> and calls \<^verbatim>\<open>processCANMsg\<close>, which empties the
  buffer again: every call finds \<^verbatim>\<open>pCANMsg = 0\<close> and processes the one frame.
\<close>

definition HAL_CAN_RxCpltCallback :: "CanRxMsgTypeDef \<Rightarrow> sys \<Rightarrow> sys" where
  "HAL_CAN_RxCpltCallback m s =
    (case processCANMsg [m] 1 [Some (epos s)] of
       Some ([Some e'], r) \<Rightarrow> s\<lparr>CAN_RxReady := True, epos := e'\<rparr>
     | _ \<Rightarrow> s\<lparr>CAN_RxReady := True\<rparr>)"

fun handle :: "irq \<Rightarrow> sys \<Rightarrow> sys" where
  "handle TxCplt s = HAL_CAN_TxCpltCallback s"
| "handle (RxCplt m) s = HAL_CAN_RxCpltCallback m s"

definition HAL_Delay :: "nat \<Rightarrow> sys \<Rightarrow> sys" where
  "HAL_Delay ms s =
    (case irqs s of
       [] \<Rightarrow> s\<lparr>clock_ms := clock_ms s + ms\<rparr>
     | t # ts \<Rightarrow> fold handle t (s\<lparr>irqs := ts, clock_ms := clock_ms s + ms\<rparr>))"

definition HAL_CAN_Transmit_IT :: "sys \<Rightarrow> bool \<times> sys" where
  "HAL_CAN_Transmit_IT s =
    (case hal_tx s of
       [] \<Rightarrow> (True, s\<lparr>wire := wire s @ [TxMessage (epos s)]\<rparr>)
     | ok # r \<Rightarrow>
         (ok, if ok then s\<lparr>hal_tx := r, wire := wire s @ [TxMessage (epos s)]\<rparr>
              else s\<lparr>hal_tx := r\<rparr>))"

text \<open>
  The two busy-wait loops, \<^verbatim>\<open>while (CAN_TxReady != true) HAL_Delay(5);\<close> of
  \<^verbatim>\<open>sendCom\<close> and \<^verbatim>\<open>while (epos->SDORcvFlag != true) HAL_Delay(1);\<close> of
  \<^verbatim>\<open>readAnswer\<close>. A loop whose flag is clear when nothing happens on the bus any more
  never ends: the result is \<open>None\<close>.
\<close>

function wait_TxReady :: "sys \<Rightarrow> sys option" where
  "wait_TxReady s =
    (if CAN_TxReady s then Some s
     else if irqs s = [] then None
     else wait_TxReady (HAL_Delay 5 s))"
  by pat_completeness auto
termination
proof (relation "measure (\<lambda>s. length (irqs s))")
  show "wf (measure (\<lambda>s. length (irqs s)))"
    by simp
next
  fix s :: sys
  assume "irqs s \<noteq> []"
  have h: "irqs (handle i s') = irqs s'" for i s'
    by (cases i)
      (auto simp: HAL_CAN_TxCpltCallback_def HAL_CAN_RxCpltCallback_def
        split: option.splits list.splits prod.splits)
  have "irqs (fold handle t s') = irqs s'" for t s'
    by (induction t arbitrary: s') (simp_all add: h)
  with \<open>irqs s \<noteq> []\<close> show "(HAL_Delay 5 s, s) \<in> measure (\<lambda>s. length (irqs s))"
    by (cases "irqs s") (simp_all add: HAL_Delay_def)
qed

function wait_SDORcvFlag :: "sys \<Rightarrow> sys option" where
  "wait_SDORcvFlag s =
    (if SDORcvFlag (epos s) then Some s
     else if irqs s = [] then None
     else wait_SDORcvFlag (HAL_Delay 1 s))"
  by pat_completeness auto
termination
proof (relation "measure (\<lambda>s. length (irqs s))")
  show "wf (measure (\<lambda>s. length (irqs s)))"
    by simp
next
  fix s :: sys
  assume "irqs s \<noteq> []"
  have h: "irqs (handle i s') = irqs s'" for i s'
    by (cases i)
      (auto simp: HAL_CAN_TxCpltCallback_def HAL_CAN_RxCpltCallback_def
        split: option.splits list.splits prod.splits)
  have "irqs (fold handle t s') = irqs s'" for t s'
    by (induction t arbitrary: s') (simp_all add: h)
  with \<open>irqs s \<noteq> []\<close> show "(HAL_Delay 1 s, s) \<in> measure (\<lambda>s. length (irqs s))"
    by (cases "irqs s") (simp_all add: HAL_Delay_def)
qed

declare wait_TxReady.simps [simp del]
declare wait_SDORcvFlag.simps [simp del]

text \<open>\<^verbatim>\<open>sendCom\<close>: \<open>-1\<close> when the peripheral refuses the frame, \<open>1\<close> once it is sent.\<close>

definition sendCom :: "epos_ptr \<Rightarrow> sys \<Rightarrow> (int \<times> sys) option" where
  "sendCom p s =
    (if p = NULL then Some (-1, s)
     else case HAL_CAN_Transmit_IT s of
       (False, s1) \<Rightarrow> Some (-1, s1)
     | (True, s1) \<Rightarrow> do {
         s2 \<leftarrow> wait_TxReady s1;
         Some (1, s2\<lparr>CAN_TxReady := False\<rparr>)
       })"

text \<open>
  \<^verbatim>\<open>readAnswer\<close>: clears \<^verbatim>\<open>E_error\<close>, waits for the flag of the SDO slot, clears the
  flag, and stores the abort code of the frame in the slot when its first byte is
  \<open>0x80\<close>. It returns 1 in both cases.
\<close>

definition readAnswer :: "epos_ptr \<Rightarrow> sys \<Rightarrow> (int \<times> sys) option" where
  "readAnswer p s =
    (if p = NULL then Some (-1, s)
     else do {
       s1 \<leftarrow> wait_SDORcvFlag (s\<lparr>epos := (epos s)\<lparr>E_error := 0\<rparr>\<rparr>);
       let e1 = (epos s1)\<lparr>SDORcvFlag := False\<rparr>;
       let e2 = (if Data (SDOMsg e1) ! 0 = 0x80
                 then e1\<lparr>E_error := le32 (Data (SDOMsg e1)) 4\<rparr> else e1);
       Some (1, s1\<lparr>epos := e2\<rparr>)
     })"

text \<open>
  \<^verbatim>\<open>checkEPOSerror\<close>: 0 when \<^verbatim>\<open>E_error\<close> is \<^verbatim>\<open>E_NOERR\<close>; every other branch of the
  \<^verbatim>\<open>switch\<close> prints the message of its code and leaves through the final
  \<^verbatim>\<open>return (-1)\<close>.
\<close>

definition checkEPOSerror :: "epos_ptr \<Rightarrow> sys \<Rightarrow> int" where
  "checkEPOSerror p s = (if p = NULL then -1 else if E_error (epos s) = 0 then 0 else -1)"

text \<open>
  \<^verbatim>\<open>checkEPOS\<close> tests \<^verbatim>\<open>epos->dev < 0\<close> on a pointer, which never holds: it returns 0.
\<close>

definition checkEPOS :: "epos_ptr \<Rightarrow> sys \<Rightarrow> int" where
  "checkEPOS p s = 0"

text \<open>The request frame of an SDO transfer, as both functions below fill \<^verbatim>\<open>TxMessage\<close>.\<close>

definition sdo_request :: "8 word \<Rightarrow> 8 word \<Rightarrow> 16 word \<Rightarrow> 8 word \<Rightarrow> 8 word list \<Rightarrow> CanMsg" where
  "sdo_request node opcode Index SubIndex payload =
    \<lparr>StdId = 0x600 + ucast node, IDE = CAN_ID_STD, RTR = CAN_RTR_DATA, DLC = 8,
     Data = [opcode, ucast (Index AND 0xFF), ucast (drop_bit 8 (Index AND 0xFF00)), SubIndex]
            @ payload\<rparr>"

text \<open>
  \<^verbatim>\<open>ReadObject\<close>. The argument \<open>param\<close> is the content of \<^verbatim>\<open>*param\<close> before the call,
  the second component of the result its content after the call.
\<close>

definition ReadObject :: "epos_ptr \<Rightarrow> 16 word \<Rightarrow> 8 word \<Rightarrow> 32 word \<Rightarrow> sys
    \<Rightarrow> (int \<times> 32 word \<times> sys) option" where
  "ReadObject p Index SubIndex param s =
    (if p = NULL then Some (-1, param, s)
     else do {
       let s1 = s\<lparr>SDOBusy := True\<rparr>;
       let s2 = s1\<lparr>epos := (epos s1)\<lparr>TxMessage :=
                  sdo_request (Node_ID (epos s1)) 0x40 Index SubIndex [0, 0, 0, 0]\<rparr>\<rparr>;
       (n, s3) \<leftarrow> sendCom p s2;
       if n < 0 then Some (-1, param, s3)
       else do {
         (ret, s4) \<leftarrow> readAnswer p s3;
         Some (ret, le32 (Data (SDOMsg (epos s4))) 4, s4\<lparr>SDOBusy := False\<rparr>)
       }
     })"

text \<open>\<^verbatim>\<open>WriteObject\<close>; \<open>param\<close> is the pair \<^verbatim>\<open>param[0]\<close>, \<^verbatim>\<open>param[1]\<close>.\<close>

definition WriteObject :: "epos_ptr \<Rightarrow> 16 word \<Rightarrow> 8 word \<Rightarrow> 16 word \<times> 16 word \<Rightarrow> sys
    \<Rightarrow> (int \<times> sys) option" where
  "WriteObject p Index SubIndex param s =
    (if p = NULL then Some (-1, s)
     else do {
       let s1 = s\<lparr>epos := (epos s)\<lparr>TxMessage :=
                  sdo_request (Node_ID (epos s)) 0x22 Index SubIndex
                    [ucast (fst param AND 0xFF), ucast (drop_bit 8 (fst param AND 0xFF00)),
                     ucast (snd param AND 0xFF), ucast (drop_bit 8 (snd param AND 0xFF00))]\<rparr>\<rparr>;
       (n, s2) \<leftarrow> sendCom p s1;
       if n < 0 then Some (-1, s2)
       else do {
         (n', s3) \<leftarrow> readAnswer p s2;
         if n' < 0 then Some (-1, s3)
         else Some (checkEPOSerror p s3, s3)
       }
     })"

section \<open>Reading and changing the state of the controller\<close>

text \<open>
  \<^verbatim>\<open>readStatusword\<close>. The argument \<open>status\<close> is the content of \<^verbatim>\<open>*status\<close> before the
  call; it is left as it is when the function fails. The local \<^verbatim>\<open>answer\<close> is not
  initialised and not read when \<^verbatim>\<open>ReadObject\<close> fails; the model starts it at 0. The
  call of \<^verbatim>\<open>checkEPOSerror\<close> after the transfer prints and its result is dropped.
\<close>

definition readStatusword :: "epos_ptr \<Rightarrow> 16 word \<Rightarrow> sys \<Rightarrow> (int \<times> 16 word \<times> sys) option" where
  "readStatusword p status s =
    (if p = NULL then Some (-1, status, s)
     else if checkEPOS p s \<noteq> 0 then Some (-1, status, s)
     else do {
       (n, answer, s1) \<leftarrow> ReadObject p 0x6041 0x00 0 s;
       if n < 0 then Some (-1, status, s1)
       else Some (0, ucast (answer AND 0xFFFF), s1)
     })"

definition checkEPOSstate :: "epos_ptr \<Rightarrow> sys \<Rightarrow> (int \<times> sys) option" where
  "checkEPOSstate p s =
    (if p = NULL then Some (-1, s)
     else do {
       (n, w, s1) \<leftarrow> readStatusword p 0x0 s;
       if n < 0 then Some (-1, s1)
       else Some (state_of_statusword w, s1)
     })"

text \<open>
  The control word that \<^verbatim>\<open>changeEPOSstate\<close> builds in \<^verbatim>\<open>dw[0]\<close> for a demanded state,
  with the assignments of each \<^verbatim>\<open>case\<close> of the source applied to \<open>0x0000\<close>; \<open>None\<close> is
  the \<^verbatim>\<open>default\<close> branch.
\<close>

definition controlword_of :: "int \<Rightarrow> 16 word option" where
  "controlword_of state =
    (let dw0 = 0x0000 in
     if state = 0 then
       Some ((((dw0 AND NOT E_BIT15) OR E_BIT02) OR E_BIT01) AND NOT E_BIT00)
     else if state = 1 then
       Some ((((dw0 AND NOT E_BIT15) OR E_BIT02) OR E_BIT01) OR E_BIT00)
     else if state = 2 then
       Some ((dw0 AND NOT E_BIT15) AND NOT E_BIT02)
     else if state = 3 then
       Some (((dw0 AND NOT E_BIT15) AND NOT E_BIT02) OR E_BIT02)
     else if state = 4 then
       Some (((((dw0 AND NOT E_BIT15) AND NOT E_BIT03) OR E_BIT02) OR E_BIT01) OR E_BIT00)
     else if state = 5 then
       Some (((((dw0 AND NOT E_BIT15) OR E_BIT03) OR E_BIT02) OR E_BIT01) OR E_BIT00)
     else if state = 6 then
       Some (dw0 OR E_BIT07)
     else None)"

definition changeEPOSstate :: "epos_ptr \<Rightarrow> int \<Rightarrow> sys \<Rightarrow> (int \<times> sys) option" where
  "changeEPOSstate p state s =
    (if p = NULL then Some (-1, s)
     else case controlword_of state of
       None \<Rightarrow> Some (-1, s)
     | Some dw0 \<Rightarrow> do {
         (n, s1) \<leftarrow> WriteObject p 0x6040 0x00 (dw0, 0x0000) s;
         if n < 0 then Some (-1, s1) else Some (0, s1)
       })"

text \<open>The literals of the table of the firmware specification for the seven targets.\<close>

datatype target = Shutdown | SwitchOn | DisableVoltage | QuickStop | DisableOperation
  | EnableOperation | FaultReset

fun target_code :: "target \<Rightarrow> int" where
  "target_code Shutdown = 0"
| "target_code SwitchOn = 1"
| "target_code DisableVoltage = 2"
| "target_code QuickStop = 3"
| "target_code DisableOperation = 4"
| "target_code EnableOperation = 5"
| "target_code FaultReset = 6"

fun literal :: "target \<Rightarrow> 8 word" where
  "literal Shutdown = 0x06"
| "literal SwitchOn = 0x07"
| "literal DisableVoltage = 0x00"
| "literal QuickStop = 0x04"
| "literal DisableOperation = 0x07"
| "literal EnableOperation = 0x0F"
| "literal FaultReset = 0x80"

text \<open>Whether the peripheral accepts the next frame handed to it.\<close>

definition tx_accepted :: "sys \<Rightarrow> bool" where
  "tx_accepted s = (case hal_tx s of [] \<Rightarrow> True | ok # r \<Rightarrow> ok)"

section \<open>Movement and homing\<close>

definition E_HOMING :: int where "E_HOMING = 6"
definition E_PROFPOS :: int where "E_PROFPOS = 1"

text \<open>\<^verbatim>\<open>setOpMode\<close>: the mode, an \<^verbatim>\<open>int\<close>, is cut to the 16 bits of \<^verbatim>\<open>dw[0]\<close>.\<close>

definition setOpMode :: "epos_ptr \<Rightarrow> int \<Rightarrow> sys \<Rightarrow> (int \<times> sys) option" where
  "setOpMode p m s =
    (if p = NULL then Some (-1, s)
     else do {
       (n, s1) \<leftarrow> WriteObject p 0x6060 0x00 (word_of_int m, 0x0000) s;
       if n < 0 then Some (-1, s1) else Some (0, s1)
     })"

text \<open>
  \<^verbatim>\<open>readOpMode\<close>: 0 stands for a failure; the low byte of the answer is read as a signed
  8-bit number.
\<close>

definition readOpMode :: "epos_ptr \<Rightarrow> sys \<Rightarrow> (int \<times> sys) option" where
  "readOpMode p s =
    (if p = NULL then Some (-1, s)
     else do {
       (n, answer, s1) \<leftarrow> ReadObject p 0x6061 0x00 0 s;
       if n < 0 then Some (0, s1)
       else Some (sint (ucast (answer AND 0xFF) :: 8 word), s1)
     })"

text \<open>
  The three reads of the monitor loops. The value is also written to \<^verbatim>\<open>*pos\<close> or
  \<^verbatim>\<open>*val\<close>, locals of the callers that are only printed; the model keeps the copy in
  the device object where the source makes one.
\<close>

definition readActualPosition :: "epos_ptr \<Rightarrow> sys \<Rightarrow> (int \<times> sys) option" where
  "readActualPosition p s =
    (if p = NULL then Some (-1, s)
     else if checkEPOS p s \<noteq> 0 then Some (-1, s)
     else do {
       (n, answer, s1) \<leftarrow> ReadObject p 0x6064 0x00 0 s;
       if n < 0 then Some (-1, s1)
       else Some (0, s1\<lparr>epos := (epos s1)\<lparr>RxPosition := answer\<rparr>\<rparr>)
     })"

definition readActualVelocity :: "epos_ptr \<Rightarrow> sys \<Rightarrow> (int \<times> sys) option" where
  "readActualVelocity p s =
    (if p = NULL then Some (-1, s)
     else if checkEPOS p s \<noteq> 0 then Some (-1, s)
     else do {
       (n, answer, s1) \<leftarrow> ReadObject p 0x606c 0x00 0 s;
       if n < 0 then Some (-1, s1)
       else Some (0, s1\<lparr>epos := (epos s1)\<lparr>RxVelocity := answer\<rparr>\<rparr>)
     })"

definition readActualCurrent :: "epos_ptr \<Rightarrow> sys \<Rightarrow> (int \<times> sys) option" where
  "readActualCurrent p s =
    (if p = NULL then Some (-1, s)
     else if checkEPOS p s \<noteq> 0 then Some (-1, s)
     else do {
       (n, answer, s1) \<leftarrow> ReadObject p 0x6078 0x00 0 s;
       if n < 0 then Some (-1, s1) else Some (0, s1)
     })"

text \<open>
  \<^verbatim>\<open>moveAbsolute\<close>: the target position, a signed 32-bit number, goes into the two
  16-bit halves \<^verbatim>\<open>steps & 0xFFFF\<close> and \<^verbatim>\<open>steps >> 16\<close>.
\<close>

definition moveAbsolute :: "epos_ptr \<Rightarrow> 32 word \<Rightarrow> sys \<Rightarrow> (int \<times> sys) option" where
  "moveAbsolute p steps s =
    (if p = NULL then Some (-1, s)
     else do {
       (m, s1) \<leftarrow> readOpMode p s;
       (n0, s2) \<leftarrow> (if m \<noteq> E_PROFPOS then setOpMode p E_PROFPOS s1 else Some (0, s1));
       if n0 \<noteq> 0 then Some (-1, s2)
       else do {
         (n, s3) \<leftarrow> WriteObject p 0x607A 0x00
                      (ucast (steps AND 0x0000FFFF), ucast (signed_drop_bit 16 steps)) s2;
         if n < 0 then Some (-1, s3)
         else do {
           (n', s4) \<leftarrow> WriteObject p 0x6040 0x00 (0x3f, 0x0000) s3;
           if n' < 0 then Some (-1, s4) else Some (0, s4)
         }
       }
     })"

text \<open>
  The \<^verbatim>\<open>do ... while\<close> loop of \<^verbatim>\<open>waitForTarget\<close>. The counter \<open>i\<close> and the timeout
  \<open>t\<close> are \<^verbatim>\<open>unsigned int\<close>, 32 bits wide; \<open>status\<close> is the local the status word is
  read into. The first argument bounds the number of rounds the model follows: \<open>None\<close>
  stands for a run that has not returned within it, or never returns.
\<close>

fun waitForTarget_loop :: "nat \<Rightarrow> epos_ptr \<Rightarrow> 32 word \<Rightarrow> 32 word \<Rightarrow> 16 word \<Rightarrow> sys
    \<Rightarrow> (int \<times> sys) option" where
  "waitForTarget_loop 0 p t i status s = None"
| "waitForTarget_loop (Suc k) p t i status s =
    (if t \<noteq> 0 \<and> i + 1 > t then Some (1, s)
     else do {
       let i' = (if t \<noteq> 0 then i + 1 else i);
       (n, status', s1) \<leftarrow> readStatusword p status (HAL_Delay 50 s);
       if status' AND E_BIT10 \<noteq> E_BIT10 then waitForTarget_loop k p t i' status' s1
       else Some (0, s1)
     })"

text \<open>
  \<^verbatim>\<open>waitForTarget\<close>; \<open>junk\<close> is the content of the local \<^verbatim>\<open>status\<close>, which the source
  does not initialise, at the start.
\<close>

definition waitForTarget :: "nat \<Rightarrow> epos_ptr \<Rightarrow> 32 word \<Rightarrow> 16 word \<Rightarrow> sys
    \<Rightarrow> (int \<times> sys) option" where
  "waitForTarget k p t junk s =
    (if p = NULL then Some (-1, s) else waitForTarget_loop k p t 0 junk s)"

text \<open>
  The \<^verbatim>\<open>do ... while\<close> loop of \<^verbatim>\<open>monitorHomingStatus\<close>. The first component of the
  result is \<open>Some r\<close> when the function returns \<open>r\<close> from inside the loop, \<open>None\<close> when
  the loop is left by a \<^verbatim>\<open>break\<close> or by its condition.
\<close>

fun monitorHomingStatus_loop :: "nat \<Rightarrow> epos_ptr \<Rightarrow> 16 word \<Rightarrow> sys
    \<Rightarrow> (int option \<times> 16 word \<times> sys) option" where
  "monitorHomingStatus_loop 0 p status s = None"
| "monitorHomingStatus_loop (Suc k) p status s =
    do {
      (n1, s1) \<leftarrow> readActualPosition p s;
      if n1 \<noteq> 0 then Some (None, status, s1)
      else do {
        (n2, s2) \<leftarrow> readActualVelocity p s1;
        if n2 \<noteq> 0 then Some (None, status, s2)
        else do {
          (n3, s3) \<leftarrow> readActualCurrent p s2;
          if n3 \<noteq> 0 then Some (None, status, s3)
          else do {
            (n4, status4, s4) \<leftarrow> readStatusword p status s3;
            (n5, status5, s5) \<leftarrow> readStatusword p status4 s4;
            if status5 AND E_BIT13 = E_BIT13 then Some (Some (-2), status5, s5)
            else if status5 AND E_BIT10 \<noteq> E_BIT10 \<and> status5 AND E_BIT12 \<noteq> E_BIT12
              then monitorHomingStatus_loop k p status5 s5
            else Some (None, status5, s5)
          }
        }
      }
    }"

definition monitorHomingStatus :: "nat \<Rightarrow> epos_ptr \<Rightarrow> sys \<Rightarrow> (int \<times> sys) option" where
  "monitorHomingStatus k p s =
    (if p = NULL then Some (-1, s)
     else do {
       (r, status, s1) \<leftarrow> monitorHomingStatus_loop k p 0x0 s;
       case r of
         Some v \<Rightarrow> Some (v, s1)
       | None \<Rightarrow> do {
           (n1, s2) \<leftarrow> readActualPosition p s1;
           (n2, s3) \<leftarrow> readActualVelocity p s2;
           (n3, s4) \<leftarrow> readActualCurrent p s3;
           (n4, status', s5) \<leftarrow> readStatusword p status s4;
           Some (0, s5)
         }
     })"

text \<open>\<^verbatim>\<open>doHoming\<close>; \<open>junk\<close> is handed to \<^verbatim>\<open>waitForTarget\<close>.\<close>

definition doHoming :: "nat \<Rightarrow> epos_ptr \<Rightarrow> 32 word \<Rightarrow> 32 word \<Rightarrow> 16 word \<Rightarrow> sys
    \<Rightarrow> (int \<times> sys) option" where
  "doHoming k p method start junk s =
    (if p = NULL then Some (-1, s)
     else do {
       (n0, s1) \<leftarrow> moveAbsolute p start s;
       if n0 \<noteq> 0 then Some (-1, s1)
       else do {
         (n1, s2) \<leftarrow> waitForTarget k p 30 junk s1;
         (n2, s3) \<leftarrow> setOpMode p E_HOMING s2;
         if n2 \<noteq> 0 then Some (-1, s3)
         else do {
           (n3, s4) \<leftarrow> WriteObject p 0x6098 0x00 (ucast method, 0x0000) s3;
           if n3 < 0 then Some (-1, s4)
           else do {
             (n4, s5) \<leftarrow> WriteObject p 0x6040 0x00 (0x000f, 0x0000) s4;
             if n4 < 0 then Some (-1, s5)
             else do {
               (n5, s6) \<leftarrow> WriteObject p 0x6040 0x00 (0x001f, 0x0000) s5;
               if n5 < 0 then Some (-1, s6)
               else do {
                 (status, s7) \<leftarrow> monitorHomingStatus k p s6;
                 if status \<noteq> 0 \<and> status = 1 then Some (2, s7)
                 else do {
                   (n6, w, s8) \<leftarrow> readStatusword p 0x0000 s7;
                   if w AND E_BIT13 = E_BIT13 then Some (-1, s8)
                   else if w AND E_BIT12 = E_BIT12 then Some (0, s8)
                   else Some (-5, s8)
                 }
               }
             }
           }
         }
       }
     })"

text \<open>
  What the interrupt handlers leave alone: the last error, the node id and the transmit
  buffer of the device, the log of the wire and the outcomes of the transmissions to come.
\<close>

definition same_core :: "sys \<Rightarrow> sys \<Rightarrow> bool" where
  "same_core s s' =
    (E_error (epos s') = E_error (epos s) \<and> Node_ID (epos s') = Node_ID (epos s)
     \<and> TxMessage (epos s') = TxMessage (epos s) \<and> wire s' = wire s \<and> hal_tx s' = hal_tx s)"

text \<open>
  The state in which a call of \<^verbatim>\<open>ReadObject\<close> stands once it has sent its request and
  is about to wait for the answer: the statements of \<^verbatim>\<open>ReadObject\<close> up to the return of
  \<^verbatim>\<open>sendCom\<close>. And the driver with the flag \<^verbatim>\<open>SDOBusy\<close> set to a given value.
\<close>

definition ReadObject_pending :: "16 word \<Rightarrow> 8 word \<Rightarrow> sys \<Rightarrow> sys option" where
  "ReadObject_pending Index SubIndex s =
     map_option snd (sendCom Ptr (s\<lparr>SDOBusy := True, epos := (epos s)\<lparr>TxMessage :=
        sdo_request (Node_ID (epos s)) 0x40 Index SubIndex [0, 0, 0, 0]\<rparr>\<rparr>))"

definition busy :: "bool \<Rightarrow> sys \<Rightarrow> sys" where
  "busy b s = s\<lparr>SDOBusy := b\<rparr>"

text \<open>A driver at rest, for the examples: device \<open>n\<close>, nothing sent, nothing pending.\<close>

definition idle_sys :: "8 word \<Rightarrow> bool list \<Rightarrow> irq list list \<Rightarrow> sys" where
  "idle_sys n tx is =
    \<lparr>SDOBusy = False, CAN_RxReady = False, CAN_TxReady = False, epos = idle_epos n,
     hal_tx = tx, irqs = is, wire = [], clock_ms = 0\<rparr>"

text \<open>
  The interrupts of one SDO transfer that the device answers at once: the transmission
  completes during the first sleep, the answer arrives during the second.
\<close>

definition answered :: "CanRxMsgTypeDef \<Rightarrow> irq list list" where
  "answered m = [[TxCplt], [RxCplt m]]"

section \<open>The status word decoder\<close>

lemma and_exp_eq_iff_bit: "(w AND 2 ^ n = (2 ^ n :: 16 word)) = bit w n" if "n < 16"
proof
  assume "w AND 2 ^ n = 2 ^ n"
  then have "bit (w AND 2 ^ n) n = bit (2 ^ n :: 16 word) n" by simp
  then show "bit w n" using that by (simp add: bit_and_iff bit_exp_iff)
next
  assume "bit w n"
  then show "w AND 2 ^ n = 2 ^ n"
    by (intro bit_eqI) (auto simp: bit_and_iff bit_exp_iff)
qed

lemma bitcmp_bit: "bitcmp w E_BIT00 = bit w 0" "bitcmp w E_BIT01 = bit w 1"
  "bitcmp w E_BIT02 = bit w 2" "bitcmp w E_BIT03 = bit w 3" "bitcmp w E_BIT04 = bit w 4"
  "bitcmp w E_BIT05 = bit w 5" "bitcmp w E_BIT06 = bit w 6" "bitcmp w E_BIT08 = bit w 8"
  "bitcmp w E_BIT14 = bit w 14"
  using and_exp_eq_iff_bit[of 0 w] and_exp_eq_iff_bit[of 1 w] and_exp_eq_iff_bit[of 2 w]
   and_exp_eq_iff_bit[of 3 w] and_exp_eq_iff_bit[of 4 w] and_exp_eq_iff_bit[of 5 w]
   and_exp_eq_iff_bit[of 6 w] and_exp_eq_iff_bit[of 8 w] and_exp_eq_iff_bit[of 14 w]
  by (simp_all add: bitcmp_def E_BIT00_def E_BIT01_def E_BIT02_def E_BIT03_def E_BIT04_def
      E_BIT05_def E_BIT06_def E_BIT08_def E_BIT14_def)

lemma all16: "(\<forall>n<16. P (n::nat)) = (P 0 \<and> P 1 \<and> P 2 \<and> P 3 \<and> P 4 \<and> P 5 \<and> P 6 \<and> P 7 \<and> P 8 \<and> P 9 \<and> P 10 \<and> P 11 \<and> P 12 \<and> P 13 \<and> P 14 \<and> P 15)"
proof -
  have "(\<forall>n<16. P n) = list_all P [0..<16]" by (auto simp: list_all_iff)
  also have "[0..<16] = [0,1,2,3,4,5,6,7,8,9,10,11,12,13,14,15::nat]" by (simp add: upt_rec)
  finally show ?thesis by simp
qed

lemma word16_eq_iff: "((a::16 word) = b) = (\<forall>n<16. bit a n = bit b n)"
  by (auto intro: bit_word_eqI)


lemma pattern_bits:
  "(w AND state_mask = 0x0000) = (\<not> bit w 0 \<and> \<not> bit w 1 \<and> \<not> bit w 2 \<and> \<not> bit w 3 \<and> \<not> bit w 4 \<and> \<not> bit w 5 \<and> \<not> bit w 6 \<and> \<not> bit w 8 \<and> \<not> bit w 14)"
  "(w AND state_mask = 0x0100) = (\<not> bit w 0 \<and> \<not> bit w 1 \<and> \<not> bit w 2 \<and> \<not> bit w 3 \<and> \<not> bit w 4 \<and> \<not> bit w 5 \<and> \<not> bit w 6 \<and> bit w 8 \<and> \<not> bit w 14)"
  "(w AND state_mask = 0x0140) = (\<not> bit w 0 \<and> \<not> bit w 1 \<and> \<not> bit w 2 \<and> \<not> bit w 3 \<and> \<not> bit w 4 \<and> \<not> bit w 5 \<and> bit w 6 \<and> bit w 8 \<and> \<not> bit w 14)"
  "(w AND state_mask = 0x0121) = (bit w 0 \<and> \<not> bit w 1 \<and> \<not> bit w 2 \<and> \<not> bit w 3 \<and> \<not> bit w 4 \<and> bit w 5 \<and> \<not> bit w 6 \<and> bit w 8 \<and> \<not> bit w 14)"
  "(w AND state_mask = 0x0123) = (bit w 0 \<and> bit w 1 \<and> \<not> bit w 2 \<and> \<not> bit w 3 \<and> \<not> bit w 4 \<and> bit w 5 \<and> \<not> bit w 6 \<and> bit w 8 \<and> \<not> bit w 14)"
  "(w AND state_mask = 0x4123) = (bit w 0 \<and> bit w 1 \<and> \<not> bit w 2 \<and> \<not> bit w 3 \<and> \<not> bit w 4 \<and> bit w 5 \<and> \<not> bit w 6 \<and> bit w 8 \<and> bit w 14)"
  "(w AND state_mask = 0x4133) = (bit w 0 \<and> bit w 1 \<and> \<not> bit w 2 \<and> \<not> bit w 3 \<and> bit w 4 \<and> bit w 5 \<and> \<not> bit w 6 \<and> bit w 8 \<and> bit w 14)"
  "(w AND state_mask = 0x0137) = (bit w 0 \<and> bit w 1 \<and> bit w 2 \<and> \<not> bit w 3 \<and> bit w 4 \<and> bit w 5 \<and> \<not> bit w 6 \<and> bit w 8 \<and> \<not> bit w 14)"
  "(w AND state_mask = 0x0117) = (bit w 0 \<and> bit w 1 \<and> bit w 2 \<and> \<not> bit w 3 \<and> bit w 4 \<and> \<not> bit w 5 \<and> \<not> bit w 6 \<and> bit w 8 \<and> \<not> bit w 14)"
  "(w AND state_mask = 0x010F) = (bit w 0 \<and> bit w 1 \<and> bit w 2 \<and> bit w 3 \<and> \<not> bit w 4 \<and> \<not> bit w 5 \<and> \<not> bit w 6 \<and> bit w 8 \<and> \<not> bit w 14)"
  "(w AND state_mask = 0x011F) = (bit w 0 \<and> bit w 1 \<and> bit w 2 \<and> bit w 3 \<and> bit w 4 \<and> \<not> bit w 5 \<and> \<not> bit w 6 \<and> bit w 8 \<and> \<not> bit w 14)"
  "(w AND state_mask = 0x0108) = (\<not> bit w 0 \<and> \<not> bit w 1 \<and> \<not> bit w 2 \<and> bit w 3 \<and> \<not> bit w 4 \<and> \<not> bit w 5 \<and> \<not> bit w 6 \<and> bit w 8 \<and> \<not> bit w 14)"
  unfolding state_mask_def word16_eq_iff
  by (simp_all add: all16 bit_and_iff)

lemma upt12: "[0..<12] = [0,1,2,3,4,5,6,7,8,9,10,11::nat]"
  by (simp add: upt_rec)

lemma matching_states_eq: "matching_states w =
   (if w AND state_mask = 0x0000 then [0]
    else if w AND state_mask = 0x0100 then [1]
    else if w AND state_mask = 0x0140 then [2]
    else if w AND state_mask = 0x0121 then [3]
    else if w AND state_mask = 0x0123 then [4]
    else if w AND state_mask = 0x4123 then [5]
    else if w AND state_mask = 0x4133 then [6]
    else if w AND state_mask = 0x0137 then [7]
    else if w AND state_mask = 0x0117 then [8]
    else if w AND state_mask = 0x010F then [9]
    else if w AND state_mask = 0x011F then [10]
    else if w AND state_mask = 0x0108 then [11] else [])"
  by (simp add: matching_states_def state_patterns_def upt12)



lemma decode_eq: "decode w =
   (if w AND state_mask = 0x0000 then 0
    else if w AND state_mask = 0x0100 then 1
    else if w AND state_mask = 0x0140 then 2
    else if w AND state_mask = 0x0121 then 3
    else if w AND state_mask = 0x0123 then 4
    else if w AND state_mask = 0x4123 then 5
    else if w AND state_mask = 0x4133 then 6
    else if w AND state_mask = 0x0137 then 7
    else if w AND state_mask = 0x0117 then 8
    else if w AND state_mask = 0x010F then 9
    else if w AND state_mask = 0x011F then 10
    else if w AND state_mask = 0x0108 then 11 else -2)"
  by (simp add: decode_def matching_states_eq)

text \<open>
  Claim C2, with twelve patterns where the claim counts eleven. The cascade of
  \<^verbatim>\<open>checkEPOSstate\<close> computes the decoder of the table: a status word yields state \<open>k\<close>
  when its bits 0 to 6, 8 and 14 have the values of pattern \<open>k\<close>, and \<open>-2\<close> (unknown) when
  they have the values of no pattern. At most one pattern matches a status word, the
  twelve patterns being pairwise different. \<^verbatim>\<open>checkEPOSstate\<close> itself returns \<open>-1\<close> when
  the status word cannot be read and the state of the word it has read otherwise.
\<close>

theorem checkEPOSstate_decodes_patterns:
  "state_of_statusword w = decode w
   \<and> length (matching_states w) \<le> 1
   \<and> distinct state_patterns \<and> length state_patterns = 12
   \<and> checkEPOSstate Ptr s =
       map_option (\<lambda>(n, w, s'). (if n < 0 then -1 else decode w, s')) (readStatusword Ptr 0 s)"
proof -
  have 1: "state_of_statusword w = decode w" for w
    unfolding decode_eq state_of_statusword_def bitcmp_bit pattern_bits
    by (rule refl)
  have 2: "length (matching_states w) \<le> 1"
    unfolding matching_states_eq by simp
  have 3: "distinct state_patterns \<and> length state_patterns = 12"
    by (simp add: state_patterns_def)
  have 4: "checkEPOSstate Ptr s =
       map_option (\<lambda>(n, w, s'). (if n < 0 then -1 else decode w, s')) (readStatusword Ptr 0 s)"
    by (cases "readStatusword Ptr 0 s") (auto simp: checkEPOSstate_def 1)
  from 1 2 3 4 show ?thesis by simp
qed

text \<open>
  The claim as stated counts eleven defined patterns. Twelve status words, one for each
  pattern of the source, decode to the twelve states 0 to 11, none of them to unknown.
\<close>

theorem eleven_patterns_counterexample:
  "map state_of_statusword
     [0x0000, 0x0100, 0x0140, 0x0121, 0x0123, 0x4123, 0x4133, 0x0137, 0x0117, 0x010F,
      0x011F, 0x0108]
   = [0, 1, 2, 3, 4, 5, 6, 7, 8, 9, 10, 11]"
  by (simp add: state_of_statusword_def bitcmp_def E_BIT00_def E_BIT01_def E_BIT02_def
      E_BIT03_def E_BIT04_def E_BIT05_def E_BIT06_def E_BIT08_def E_BIT14_def)

section \<open>The dispatcher\<close>

lemma unat_ucast_8_32: "unat (ucast (n::8 word) :: 32 word) = unat n"
  by (simp add: unsigned_ucast_eq take_bit_nat_eq_self_iff)
     (rule less_trans[OF unsigned_less], simp)

lemma unat_node_offset: "unat ((ucast (n::8 word) :: 32 word) + offset c) = unat n + unat (offset c)"
proof -
  have "unat n < 256" using unsigned_less[of n, where 'a=nat] by simp
  moreover have "unat (offset c) \<le> 0x580" by (cases c) simp_all
  ultimately have "unat (ucast n :: 32 word) + unat (offset c) < 2 ^ LENGTH(32)"
    by (simp add: unat_ucast_8_32)
  then show ?thesis by (simp add: unat_add_lem[THEN iffD1] unat_ucast_8_32)
qed

lemma offset_inj:
  assumes "(ucast (n::8 word) :: 32 word) + offset c = ucast (m::8 word) + offset c'"
  shows "n = m \<and> c = c'"
proof -
  have n: "unat n < 256" using unsigned_less[of n, where 'a=nat] by simp
  have m: "unat m < 256" using unsigned_less[of m, where 'a=nat] by simp
  from assms have e: "unat n + unat (offset c) = unat m + unat (offset c')"
    by (metis unat_node_offset)
  have c: "c = c'" using e n m by (cases c; cases c') simp_all
  with e have "unat n = unat m" by simp
  then show ?thesis using c by (simp add: word_unat_eq_iff)
qed

lemma addressed_unique: "addressed m c e \<Longrightarrow> addressed m c' e' \<Longrightarrow> Node_ID e = Node_ID e' \<and> c = c'"
  unfolding addressed_def using offset_inj by metis

lemma claim_addressed: "addressed m c e \<Longrightarrow> claim m e = Some (deliver c m e)"
  by (cases c) (simp_all add: addressed_def claim_def)

lemma claim_unaddressed: "(\<forall>c. \<not> addressed m c e) \<Longrightarrow> claim m e = None"
proof -
  assume a: "\<forall>c. \<not> addressed m c e"
  from a[THEN spec, of EMCY] a[THEN spec, of PDO1] a[THEN spec, of PDO2]
    a[THEN spec, of PDO3] a[THEN spec, of PDO4] a[THEN spec, of SDO]
  show ?thesis by (simp add: addressed_def claim_def)
qed

lemma claim_Some: "claim m e = Some e' \<Longrightarrow> \<exists>c. addressed m c e \<and> e' = deliver c m e"
  using claim_unaddressed claim_addressed by (metis option.distinct(1) option.inject)





section \<open>The PDO cache\<close>

lemma Node_ID_deliver: "Node_ID (deliver c m e) = Node_ID e"
  by (cases c) simp_all

lemma Node_ID_step: "Node_ID (step m e) = Node_ID e"
  by (auto simp: step_def Node_ID_deliver split: option.splits dest!: claim_Some)

lemma scan_pointwise:
  "distinct (map Node_ID es) \<Longrightarrow> \<exists>u. scan m (map Some es) = (map Some (map (step m) es), u)"
proof (induction es)
  case Nil
  then show ?case by (intro exI[of _ True]) simp
next
  case (Cons e es)
  show ?case
  proof (cases "claim m e")
    case None
    from Cons obtain u where "scan m (map Some es) = (map Some (map (step m) es), u)" by auto
    with None show ?thesis by (simp add: step_def)
  next
    case (Some e')
    then obtain c where c: "addressed m c e" using claim_Some by blast
    have "step m x = x" if "x \<in> set es" for x
    proof -
      have "Node_ID e \<notin> Node_ID ` set es" using Cons.prems by simp
      then have "Node_ID x \<noteq> Node_ID e" using that by (metis imageI)
      then have "\<forall>c'. \<not> addressed m c' x" using c addressed_unique by metis
      then show ?thesis by (simp add: step_def claim_unaddressed)
    qed
    then have "map (step m) es = es" by (simp add: map_idI)
    moreover have "step m e = e'" using Some by (simp add: step_def)
    moreover have "scan m (map Some (e # es)) = (Some e' # map Some es, False)"
      using Some by simp
    ultimately show ?thesis by (intro exI[of _ False]) (simp del: scan.simps)
  qed
qed

lemma drain_pointwise:
  "distinct (map Node_ID es) \<Longrightarrow> p \<le> length buf \<Longrightarrow>
   \<exists>r. drain buf p (map Some es) = (map Some (map (foldr step (take p buf)) es), r)"
proof (induction p arbitrary: es)
  case 0
  then show ?case by simp
next
  case (Suc p)
  let ?es = "map (step (buf ! p)) es"
  obtain u where 1: "scan (buf ! p) (map Some es) = (map Some ?es, u)"
    using scan_pointwise[OF Suc.prems(1)] by blast
  have d: "distinct (map Node_ID ?es)" using Suc.prems(1) by (simp add: comp_def Node_ID_step)
  obtain r where 2: "drain buf p (map Some ?es) = (map Some (map (foldr step (take p buf)) ?es), r)"
    using Suc.IH[OF d] Suc.prems(2) by auto
  have 3: "take (Suc p) buf = take p buf @ [buf ! p]"
    using Suc.prems(2) by (simp add: take_Suc_conv_app_nth)
  show ?case by (simp add: 1 2 3 del: map_map) (simp add: comp_def)
qed

lemma processPDOMessage_pointwise:
  "processPDOMessage (map Some es) = Some (map Some (map decodePDO es))"
  by (induction es) simp_all

lemma processCANMsg_pointwise:
  assumes "distinct (map Node_ID es)"
  shows "\<exists>r. processCANMsg buf (length buf) (map Some es)
         = Some (map Some (map (\<lambda>e. decodePDO (foldr step buf e)) es), r)"
proof -
  obtain r where "drain buf (length buf) (map Some es) = (map Some (map (foldr step buf) es), r)"
    using drain_pointwise[OF assms, of "length buf" buf] by auto
  then show ?thesis
    by (simp add: processCANMsg_def processPDOMessage_pointwise del: map_map) (simp add: comp_def)
qed

lemma claim_fields:
  "claim m e = Some e' \<Longrightarrow>
   RxPosition e' = RxPosition e \<and> RxVelocity e' = RxVelocity e
   \<and> PDO3Msg e' = (if addressed m PDO3 e then m else PDO3Msg e)
   \<and> PDO3RcvFlag e' = (addressed m PDO3 e \<or> PDO3RcvFlag e)
   \<and> PDO4Msg e' = (if addressed m PDO4 e then m else PDO4Msg e)
   \<and> PDO4RcvFlag e' = (addressed m PDO4 e \<or> PDO4RcvFlag e)"
proof -
  assume "claim m e = Some e'"
  then obtain c where c: "addressed m c e" "e' = deliver c m e" using claim_Some by blast
  have "addressed m c' e = (c' = c)" for c' using c(1) addressed_unique by blast
  then show ?thesis using c(2) by (cases c) simp_all
qed

lemma step_fields:
  "RxPosition (step m e) = RxPosition e \<and> RxVelocity (step m e) = RxVelocity e
   \<and> PDO3Msg (step m e) = (if addressed m PDO3 e then m else PDO3Msg e)
   \<and> PDO3RcvFlag (step m e) = (addressed m PDO3 e \<or> PDO3RcvFlag e)
   \<and> PDO4Msg (step m e) = (if addressed m PDO4 e then m else PDO4Msg e)
   \<and> PDO4RcvFlag (step m e) = (addressed m PDO4 e \<or> PDO4RcvFlag e)"
proof (cases "claim m e")
  case None
  then have "\<not> addressed m c e" for c using claim_addressed by (metis option.distinct(1))
  with None show ?thesis by (simp add: step_def)
next
  case (Some e')
  from claim_fields[OF Some] Some show ?thesis by (simp add: step_def)
qed

lemma RxCplt_eq:
  "HAL_CAN_RxCpltCallback m s = s\<lparr>CAN_RxReady := True, epos := decodePDO (step m (epos s))\<rparr>"
proof -
  obtain r where "processCANMsg [m] 1 [Some (epos s)] = Some ([Some (decodePDO (step m (epos s)))], r)"
    using processCANMsg_pointwise[of "[epos s]" "[m]"] by auto
  then show ?thesis by (simp add: HAL_CAN_RxCpltCallback_def)
qed

lemma deliver_core:
  "E_error (deliver c m e) = E_error e \<and> TxMessage (deliver c m e) = TxMessage e"
  by (cases c) simp_all

lemma step_core:
  "E_error (step m e) = E_error e \<and> Node_ID (step m e) = Node_ID e
   \<and> TxMessage (step m e) = TxMessage e"
  by (auto simp: step_def deliver_core Node_ID_deliver split: option.splits dest!: claim_Some)

lemma decodePDO_core:
  "E_error (decodePDO e) = E_error e \<and> Node_ID (decodePDO e) = Node_ID e
   \<and> TxMessage (decodePDO e) = TxMessage e \<and> SDOMsg (decodePDO e) = SDOMsg e
   \<and> SDORcvFlag (decodePDO e) = SDORcvFlag e"
  by (simp add: decodePDO_def Let_def)

lemma le32_le_bytes: "le32 d k = le_bytes (d ! k) (d ! (k + 1)) (d ! (k + 2)) (d ! (k + 3))"
  by (simp add: le32_def le_bytes_def push_bit_eq_mult)

lemma le32_at: "le32 d 2 = le_bytes (d ! 2) (d ! 3) (d ! 4) (d ! 5)"
  "le32 d 4 = le_bytes (d ! 4) (d ! 5) (d ! 6) (d ! 7)"
  by (simp_all add: le32_le_bytes)

lemma RxCplt_array_pointwise:
  assumes "distinct (map Node_ID es)"
  shows "RxCplt_array m (map Some es) = Some (map Some (map (\<lambda>e. decodePDO (step m e)) es))"
proof -
  obtain r where "processCANMsg [m] (length [m]) (map Some es)
      = Some (map Some (map (\<lambda>e. decodePDO (foldr step [m] e)) es), r)"
    using processCANMsg_pointwise[OF assms, of "[m]"] by blast
  then show ?thesis by (simp add: RxCplt_array_def)
qed

lemma receive_pointwise:
  "distinct (map Node_ID es) \<Longrightarrow>
   receive fs (map Some es) = Some (map Some (map (fold (\<lambda>m e. decodePDO (step m e)) fs) es))"
proof (induction fs arbitrary: es)
  case Nil
  then show ?case by simp
next
  case (Cons m fs)
  let ?es = "map (\<lambda>e. decodePDO (step m e)) es"
  have d: "distinct (map Node_ID ?es)"
    using Cons.prems by (simp add: comp_def decodePDO_core Node_ID_step)
  show ?case
    using Cons.IH[OF d] RxCplt_array_pointwise[OF Cons.prems, of m]
    by (simp del: map_map) (simp add: comp_def)
qed


lemma rx1_fields:
  "Node_ID (rx1 m e) = Node_ID e
   \<and> \<not> PDO3RcvFlag (rx1 m e) \<and> \<not> PDO4RcvFlag (rx1 m e)
   \<and> RxPosition (rx1 m e) =
       (if addressed m PDO3 e then le32 (Data m) 2
        else if PDO3RcvFlag e then le32 (Data (PDO3Msg e)) 2 else RxPosition e)
   \<and> RxVelocity (rx1 m e) =
       (if addressed m PDO4 e then le32 (Data m) 2
        else if PDO4RcvFlag e then le32 (Data (PDO4Msg e)) 2 else RxVelocity e)"
  using step_fields[of m e]
  by (simp add: rx1_def decodePDO_def Let_def Node_ID_step)

lemma addressed_rx1: "addressed m' c (rx1 m e) = addressed m' c e"
  by (simp add: addressed_def rx1_fields)

lemma addressed_fold_rx1: "addressed m' c (fold rx1 fs e) = addressed m' c e"
  by (induction fs arbitrary: e) (simp_all add: addressed_rx1)

lemma last_on_snoc:
  "last_on c e (fs @ [m]) = (if addressed m c e then Some m else last_on c e fs)"
  by (simp add: last_on_def)

lemma fold_rx1_fields:
  "(fs \<noteq> [] \<longrightarrow> \<not> PDO3RcvFlag (fold rx1 fs e) \<and> \<not> PDO4RcvFlag (fold rx1 fs e))
   \<and> RxPosition (fold rx1 fs e) =
       (case last_on PDO3 e fs of
          Some m \<Rightarrow> le32 (Data m) 2
        | None \<Rightarrow> if fs \<noteq> [] \<and> PDO3RcvFlag e then le32 (Data (PDO3Msg e)) 2
                   else RxPosition e)
   \<and> RxVelocity (fold rx1 fs e) =
       (case last_on PDO4 e fs of
          Some m \<Rightarrow> le32 (Data m) 2
        | None \<Rightarrow> if fs \<noteq> [] \<and> PDO4RcvFlag e then le32 (Data (PDO4Msg e)) 2
                   else RxVelocity e)"
proof (induction fs rule: rev_induct)
  case Nil
  then show ?case by (simp add: last_on_def)
next
  case (snoc m fs)
  show ?case
  proof (cases "fs = []")
    case True
    then show ?thesis using rx1_fields[of m e] by (simp add: last_on_def)
  next
    case False
    with snoc show ?thesis
      using rx1_fields[of m "fold rx1 fs e"]
      by (simp add: last_on_snoc addressed_fold_rx1 split: option.splits)
  qed
qed

lemma fold_handle_RxCplt:
  "epos (fold handle (map RxCplt fs) s) = fold rx1 fs (epos s)"
  by (induction fs arbitrary: s) (simp_all add: RxCplt_eq rx1_def)

text \<open>
  Claim C6. Frames reach the driver through the receive callback, one pass of
  \<^verbatim>\<open>processCANMsg\<close> and \<^verbatim>\<open>processPDOMessage\<close> for each frame. After the frames \<open>fs\<close>
  have arrived in this order, for every device of an array with pairwise different node
  ids the cached position is the little-endian value of bytes 2 to 5 of the most recently
  arrived frame addressed to channel 3 of the device; when no such frame has arrived it
  is the value of the frame that was waiting in the slot with its flag set, and unchanged
  otherwise. The cached velocity is the same function of the frames addressed to channel
  4 and of the slot of channel 4: frames of channel 3 do not enter it. The same holds of
  the device of the driver state when the frames arrive as interrupts.
\<close>

theorem PDO_cache_last_value_wins:
  assumes "distinct (map Node_ID es)"
  shows "(\<exists>es'. receive fs (map Some es) = Some (map Some es') \<and> length es' = length es
     \<and> (\<forall>i<length es.
          RxPosition (es' ! i) =
            (case last_on PDO3 (es ! i) fs of
               Some m \<Rightarrow> le_bytes (Data m ! 2) (Data m ! 3) (Data m ! 4) (Data m ! 5)
             | None \<Rightarrow>
                 if fs \<noteq> [] \<and> PDO3RcvFlag (es ! i)
                 then le_bytes (Data (PDO3Msg (es ! i)) ! 2) (Data (PDO3Msg (es ! i)) ! 3)
                        (Data (PDO3Msg (es ! i)) ! 4) (Data (PDO3Msg (es ! i)) ! 5)
                 else RxPosition (es ! i))
        \<and> RxVelocity (es' ! i) =
            (case last_on PDO4 (es ! i) fs of
               Some m \<Rightarrow> le_bytes (Data m ! 2) (Data m ! 3) (Data m ! 4) (Data m ! 5)
             | None \<Rightarrow>
                 if fs \<noteq> [] \<and> PDO4RcvFlag (es ! i)
                 then le_bytes (Data (PDO4Msg (es ! i)) ! 2) (Data (PDO4Msg (es ! i)) ! 3)
                        (Data (PDO4Msg (es ! i)) ! 4) (Data (PDO4Msg (es ! i)) ! 5)
                 else RxVelocity (es ! i))))
   \<and> RxPosition (epos (fold handle (map RxCplt fs) s)) =
        (case last_on PDO3 (epos s) fs of
           Some m \<Rightarrow> le_bytes (Data m ! 2) (Data m ! 3) (Data m ! 4) (Data m ! 5)
         | None \<Rightarrow>
             if fs \<noteq> [] \<and> PDO3RcvFlag (epos s)
             then le_bytes (Data (PDO3Msg (epos s)) ! 2) (Data (PDO3Msg (epos s)) ! 3)
                    (Data (PDO3Msg (epos s)) ! 4) (Data (PDO3Msg (epos s)) ! 5)
             else RxPosition (epos s))
   \<and> RxVelocity (epos (fold handle (map RxCplt fs) s)) =
        (case last_on PDO4 (epos s) fs of
           Some m \<Rightarrow> le_bytes (Data m ! 2) (Data m ! 3) (Data m ! 4) (Data m ! 5)
         | None \<Rightarrow>
             if fs \<noteq> [] \<and> PDO4RcvFlag (epos s)
             then le_bytes (Data (PDO4Msg (epos s)) ! 2) (Data (PDO4Msg (epos s)) ! 3)
                    (Data (PDO4Msg (epos s)) ! 4) (Data (PDO4Msg (epos s)) ! 5)
             else RxVelocity (epos s))"
proof -
  have r: "receive fs (map Some es) = Some (map Some (map (fold rx1 fs) es))"
    using receive_pointwise[OF assms, of fs] by (simp add: rx1_def[abs_def])
  have f: "RxPosition (fold rx1 fs e) =
            (case last_on PDO3 e fs of
               Some m \<Rightarrow> le_bytes (Data m ! 2) (Data m ! 3) (Data m ! 4) (Data m ! 5)
             | None \<Rightarrow>
                 if fs \<noteq> [] \<and> PDO3RcvFlag e
                 then le_bytes (Data (PDO3Msg e) ! 2) (Data (PDO3Msg e) ! 3)
                        (Data (PDO3Msg e) ! 4) (Data (PDO3Msg e) ! 5)
                 else RxPosition e)
        \<and> RxVelocity (fold rx1 fs e) =
            (case last_on PDO4 e fs of
               Some m \<Rightarrow> le_bytes (Data m ! 2) (Data m ! 3) (Data m ! 4) (Data m ! 5)
             | None \<Rightarrow>
                 if fs \<noteq> [] \<and> PDO4RcvFlag e
                 then le_bytes (Data (PDO4Msg e) ! 2) (Data (PDO4Msg e) ! 3)
                        (Data (PDO4Msg e) ! 4) (Data (PDO4Msg e) ! 5)
                 else RxVelocity e)" for e
    using fold_rx1_fields[of fs e, unfolded le32_at] by blast
  have 1: "\<exists>es'. receive fs (map Some es) = Some (map Some es') \<and> length es' = length es
     \<and> (\<forall>i<length es.
          RxPosition (es' ! i) =
            (case last_on PDO3 (es ! i) fs of
               Some m \<Rightarrow> le_bytes (Data m ! 2) (Data m ! 3) (Data m ! 4) (Data m ! 5)
             | None \<Rightarrow>
                 if fs \<noteq> [] \<and> PDO3RcvFlag (es ! i)
                 then le_bytes (Data (PDO3Msg (es ! i)) ! 2) (Data (PDO3Msg (es ! i)) ! 3)
                        (Data (PDO3Msg (es ! i)) ! 4) (Data (PDO3Msg (es ! i)) ! 5)
                 else RxPosition (es ! i))
        \<and> RxVelocity (es' ! i) =
            (case last_on PDO4 (es ! i) fs of
               Some m \<Rightarrow> le_bytes (Data m ! 2) (Data m ! 3) (Data m ! 4) (Data m ! 5)
             | None \<Rightarrow>
                 if fs \<noteq> [] \<and> PDO4RcvFlag (es ! i)
                 then le_bytes (Data (PDO4Msg (es ! i)) ! 2) (Data (PDO4Msg (es ! i)) ! 3)
                        (Data (PDO4Msg (es ! i)) ! 4) (Data (PDO4Msg (es ! i)) ! 5)
                 else RxVelocity (es ! i)))"
    using r f by (intro exI[of _ "map (fold rx1 fs) es"]) simp
  show ?thesis using 1 f[of "epos s"] by (simp only: fold_handle_RxCplt)
qed


theorem PDO_cache_last_value_wins_witness:
  "distinct (map Node_ID [idle_epos 1, idle_epos 2])
   \<and> (\<exists>es'. receive
         [frame 0x381 [0, 0, 1, 0, 0, 0, 0, 0], frame 0x481 [0, 0, 5, 0, 0, 0, 0, 0],
          frame 0x382 [0, 0, 7, 0, 0, 0, 0, 0], frame 0x381 [0, 0, 2, 1, 0, 0, 0, 0]]
         (map Some [idle_epos 1, idle_epos 2]) = Some (map Some es')
      \<and> RxPosition (es' ! 0) = 0x0102 \<and> RxVelocity (es' ! 0) = 5
      \<and> RxPosition (es' ! 1) = 7 \<and> RxVelocity (es' ! 1) = 0)"
proof -
  let ?fs = "[frame 0x381 [0, 0, 1, 0, 0, 0, 0, 0], frame 0x481 [0, 0, 5, 0, 0, 0, 0, 0],
          frame 0x382 [0, 0, 7, 0, 0, 0, 0, 0], frame 0x381 [0, 0, 2, 1, 0, 0, 0, 0]]"
  let ?es = "[idle_epos 1, idle_epos 2]"
  have d: "distinct (map Node_ID ?es)" by (simp add: idle_epos_def)
  have l: "last_on PDO3 (idle_epos 1) ?fs = Some (frame 0x381 [0, 0, 2, 1, 0, 0, 0, 0])"
    "last_on PDO4 (idle_epos 1) ?fs = Some (frame 0x481 [0, 0, 5, 0, 0, 0, 0, 0])"
    "last_on PDO3 (idle_epos 2) ?fs = Some (frame 0x382 [0, 0, 7, 0, 0, 0, 0, 0])"
    "last_on PDO4 (idle_epos 2) ?fs = None"
    by (simp_all add: last_on_def addressed_def frame_def idle_epos_def)
  have v: "le_bytes 2 1 0 0 = 0x0102" "le_bytes 5 0 0 0 = 5" "le_bytes 7 0 0 0 = 7"
    by (simp_all add: le_bytes_def)
  from PDO_cache_last_value_wins[OF d, of ?fs]
  obtain es' where e: "receive ?fs (map Some ?es) = Some (map Some es')"
    and a: "\<forall>i<length ?es.
          RxPosition (es' ! i) =
            (case last_on PDO3 (?es ! i) ?fs of
               Some m \<Rightarrow> le_bytes (Data m ! 2) (Data m ! 3) (Data m ! 4) (Data m ! 5)
             | None \<Rightarrow>
                 if ?fs \<noteq> [] \<and> PDO3RcvFlag (?es ! i)
                 then le_bytes (Data (PDO3Msg (?es ! i)) ! 2) (Data (PDO3Msg (?es ! i)) ! 3)
                        (Data (PDO3Msg (?es ! i)) ! 4) (Data (PDO3Msg (?es ! i)) ! 5)
                 else RxPosition (?es ! i))
        \<and> RxVelocity (es' ! i) =
            (case last_on PDO4 (?es ! i) ?fs of
               Some m \<Rightarrow> le_bytes (Data m ! 2) (Data m ! 3) (Data m ! 4) (Data m ! 5)
             | None \<Rightarrow>
                 if ?fs \<noteq> [] \<and> PDO4RcvFlag (?es ! i)
                 then le_bytes (Data (PDO4Msg (?es ! i)) ! 2) (Data (PDO4Msg (?es ! i)) ! 3)
                        (Data (PDO4Msg (?es ! i)) ! 4) (Data (PDO4Msg (?es ! i)) ! 5)
                 else RxVelocity (?es ! i))"
    by blast
  from a[THEN spec, of 0] l v
  have 0: "RxPosition (es' ! 0) = 0x0102 \<and> RxVelocity (es' ! 0) = 5"
    by (simp add: frame_def)
  from a[THEN spec, of 1] l v
  have 1: "RxPosition (es' ! 1) = 7 \<and> RxVelocity (es' ! 1) = 0"
    by (simp add: frame_def idle_epos_def)
  from d e 0 1 show ?thesis by blast
qed

section \<open>The SDO engine\<close>

lemma same_core_refl: "same_core s s"
  by (simp add: same_core_def)

lemma same_core_trans: "same_core s s' \<Longrightarrow> same_core s' s'' \<Longrightarrow> same_core s s''"
  by (simp add: same_core_def)

lemma handle_core: "same_core s (handle i s) \<and> irqs (handle i s) = irqs s"
  by (cases i) (simp_all add: same_core_def HAL_CAN_TxCpltCallback_def RxCplt_eq step_core decodePDO_core)

lemma fold_handle_core: "same_core s (fold handle t s) \<and> irqs (fold handle t s) = irqs s"
proof (induction t arbitrary: s)
  case Nil
  then show ?case by (simp add: same_core_refl)
next
  case (Cons i t)
  then show ?case using handle_core[of s i] same_core_trans by fastforce
qed

lemma HAL_Delay_core: "same_core s (HAL_Delay ms s) \<and> irqs (HAL_Delay ms s) = tl (irqs s)"
proof (cases "irqs s")
  case Nil
  then show ?thesis by (simp add: HAL_Delay_def same_core_def)
next
  case (Cons t ts)
  let ?s = "s\<lparr>irqs := ts, clock_ms := clock_ms s + ms\<rparr>"
  have "same_core s ?s" by (simp add: same_core_def)
  with fold_handle_core[of ?s t] Cons show ?thesis
    using same_core_trans by (fastforce simp: HAL_Delay_def)
qed

lemma wait_TxReady_core: "wait_TxReady s = Some s' \<Longrightarrow> same_core s s' \<and> CAN_TxReady s'"
proof (induction s rule: wait_TxReady.induct)
  case (1 s)
  show ?case
  proof (cases "CAN_TxReady s")
    case True
    with 1 show ?thesis by (simp add: wait_TxReady.simps[of s] same_core_refl)
  next
    case False
    with 1 have n: "irqs s \<noteq> []" and w: "wait_TxReady (HAL_Delay 5 s) = Some s'"
      by (auto simp: wait_TxReady.simps[of s] split: if_splits)
    from "1.IH"[OF False n w] HAL_Delay_core[of s 5] show ?thesis
      using same_core_trans by blast
  qed
qed

lemma wait_SDORcvFlag_core:
  "wait_SDORcvFlag s = Some s' \<Longrightarrow> same_core s s' \<and> SDORcvFlag (epos s')"
proof (induction s rule: wait_SDORcvFlag.induct)
  case (1 s)
  show ?case
  proof (cases "SDORcvFlag (epos s)")
    case True
    with 1 show ?thesis by (simp add: wait_SDORcvFlag.simps[of s] same_core_refl)
  next
    case False
    with 1 have n: "irqs s \<noteq> []" and w: "wait_SDORcvFlag (HAL_Delay 1 s) = Some s'"
      by (auto simp: wait_SDORcvFlag.simps[of s] split: if_splits)
    from "1.IH"[OF False n w] HAL_Delay_core[of s 1] show ?thesis
      using same_core_trans by blast
  qed
qed

lemma sendCom_Ptr:
  assumes "sendCom Ptr s = Some (n, s')"
  shows "Node_ID (epos s') = Node_ID (epos s) \<and> TxMessage (epos s') = TxMessage (epos s)
       \<and> E_error (epos s') = E_error (epos s)
       \<and> (if tx_accepted s then n = 1 \<and> wire s' = wire s @ [TxMessage (epos s)]
          else n = -1 \<and> wire s' = wire s)"
proof (cases "fst (HAL_CAN_Transmit_IT s)")
  case True
  obtain s1 where s1: "HAL_CAN_Transmit_IT s = (True, s1)" using True by (cases "HAL_CAN_Transmit_IT s") simp
  then have a: "tx_accepted s" "wire s1 = wire s @ [TxMessage (epos s)]" "epos s1 = epos s"
    by (auto simp: HAL_CAN_Transmit_IT_def tx_accepted_def split: list.splits if_splits)
  from assms s1 obtain s2 where s2: "wait_TxReady s1 = Some s2" "s' = s2\<lparr>CAN_TxReady := False\<rparr>" "n = 1"
    by (auto simp: sendCom_def split: bind_splits)
  from wait_TxReady_core[OF s2(1)] a s2 show ?thesis by (simp add: same_core_def)
next
  case False
  obtain s1 where s1: "HAL_CAN_Transmit_IT s = (False, s1)" using False by (cases "HAL_CAN_Transmit_IT s") simp
  then have a: "\<not> tx_accepted s" "wire s1 = wire s" "epos s1 = epos s"
    by (auto simp: HAL_CAN_Transmit_IT_def tx_accepted_def split: list.splits if_splits)
  from assms s1 have "s' = s1" "n = -1" by (auto simp: sendCom_def)
  with a show ?thesis by simp
qed

lemma readAnswer_Ptr:
  assumes "readAnswer Ptr s = Some (n, s')"
  shows "n = 1 \<and> Node_ID (epos s') = Node_ID (epos s) \<and> TxMessage (epos s') = TxMessage (epos s)
       \<and> wire s' = wire s \<and> \<not> SDORcvFlag (epos s')
       \<and> E_error (epos s') = (if Data (SDOMsg (epos s')) ! 0 = 0x80
                               then le32 (Data (SDOMsg (epos s'))) 4 else 0)"
proof -
  let ?s0 = "s\<lparr>epos := (epos s)\<lparr>E_error := 0\<rparr>\<rparr>"
  from assms obtain s1 where s1: "wait_SDORcvFlag ?s0 = Some s1"
    by (auto simp: readAnswer_def split: bind_splits)
  from wait_SDORcvFlag_core[OF s1] have c: "same_core ?s0 s1" by simp
  from assms s1 show ?thesis using c
    by (auto simp: readAnswer_def Let_def same_core_def split: if_splits)
qed


lemma ReadObject_Ptr:
  assumes "ReadObject Ptr Index SubIndex param s = Some (n, v, s')"
  shows "Node_ID (epos s') = Node_ID (epos s)
       \<and> TxMessage (epos s') = sdo_request (Node_ID (epos s)) 0x40 Index SubIndex [0, 0, 0, 0]
       \<and> (if tx_accepted s
           then n = 1 \<and> v = le32 (Data (SDOMsg (epos s'))) 4 \<and> \<not> SDOBusy s'
                \<and> wire s' = wire s @ [sdo_request (Node_ID (epos s)) 0x40 Index SubIndex [0, 0, 0, 0]]
                \<and> E_error (epos s') = (if Data (SDOMsg (epos s')) ! 0 = 0x80
                                        then le32 (Data (SDOMsg (epos s'))) 4 else 0)
           else n = -1 \<and> v = param \<and> SDOBusy s' \<and> wire s' = wire s
                \<and> E_error (epos s') = E_error (epos s))"
proof -
  let ?rq = "sdo_request (Node_ID (epos s)) 0x40 Index SubIndex [0, 0, 0, 0]"
  let ?s2 = "s\<lparr>SDOBusy := True, epos := (epos s)\<lparr>TxMessage := ?rq\<rparr>\<rparr>"
  from assms obtain m s3 where s3: "sendCom Ptr ?s2 = Some (m, s3)"
    by (auto simp: ReadObject_def Let_def split: bind_splits)
  have t: "tx_accepted ?s2 = tx_accepted s" by (simp add: tx_accepted_def)
  note c = sendCom_Ptr[OF s3, unfolded t]
  show ?thesis
  proof (cases "tx_accepted s")
    case False
    with c have "m = -1" by simp
    with assms s3 have "n = -1" "v = param" "s' = s3"
      by (auto simp: ReadObject_def Let_def)
    moreover have "SDOBusy s3"
      using s3 False t
      by (auto simp: sendCom_def HAL_CAN_Transmit_IT_def tx_accepted_def
          split: list.splits if_splits)
    ultimately show ?thesis using c False by simp
  next
    case True
    with c have m: "m = 1" by simp
    with assms s3 obtain r s4 where s4: "readAnswer Ptr s3 = Some (r, s4)"
      and e: "n = r" "v = le32 (Data (SDOMsg (epos s4))) 4" "s' = s4\<lparr>SDOBusy := False\<rparr>"
      by (auto simp: ReadObject_def Let_def split: bind_splits)
    from readAnswer_Ptr[OF s4] c True e show ?thesis by simp
  qed
qed

lemma WriteObject_Ptr:
  assumes "WriteObject Ptr Index SubIndex param s = Some (n, s')"
  shows "Node_ID (epos s') = Node_ID (epos s)
       \<and> TxMessage (epos s') = sdo_request (Node_ID (epos s)) 0x22 Index SubIndex
            [ucast (fst param AND 0xFF), ucast (drop_bit 8 (fst param AND 0xFF00)),
             ucast (snd param AND 0xFF), ucast (drop_bit 8 (snd param AND 0xFF00))]
       \<and> (if tx_accepted s
           then n = (if E_error (epos s') = 0 then 0 else -1)
                \<and> wire s' = wire s @ [TxMessage (epos s')]
                \<and> E_error (epos s') = (if Data (SDOMsg (epos s')) ! 0 = 0x80
                                        then le32 (Data (SDOMsg (epos s'))) 4 else 0)
           else n = -1 \<and> wire s' = wire s \<and> E_error (epos s') = E_error (epos s))"
proof -
  let ?rq = "sdo_request (Node_ID (epos s)) 0x22 Index SubIndex
            [ucast (fst param AND 0xFF), ucast (drop_bit 8 (fst param AND 0xFF00)),
             ucast (snd param AND 0xFF), ucast (drop_bit 8 (snd param AND 0xFF00))]"
  let ?s1 = "s\<lparr>epos := (epos s)\<lparr>TxMessage := ?rq\<rparr>\<rparr>"
  from assms obtain m s2 where s2: "sendCom Ptr ?s1 = Some (m, s2)"
    by (auto simp: WriteObject_def Let_def split: bind_splits)
  have t: "tx_accepted ?s1 = tx_accepted s" by (simp add: tx_accepted_def)
  note c = sendCom_Ptr[OF s2, unfolded t]
  show ?thesis
  proof (cases "tx_accepted s")
    case False
    with c have "m = -1" by simp
    with assms s2 have "n = -1" "s' = s2"
      by (auto simp: WriteObject_def Let_def)
    then show ?thesis using c False by simp
  next
    case True
    with c have m: "m = 1" by simp
    with assms s2 obtain r s3 where s3: "readAnswer Ptr s2 = Some (r, s3)"
      by (auto simp: WriteObject_def Let_def split: bind_splits)
    from readAnswer_Ptr[OF s3] have r: "r = 1" by simp
    with assms s2 s3 m have e: "n = checkEPOSerror Ptr s3" "s' = s3"
      by (auto simp: WriteObject_def Let_def)
    from readAnswer_Ptr[OF s3] c True e show ?thesis by (simp add: checkEPOSerror_def)
  qed
qed


lemma wait_TxReady_TxCplt:
  assumes "\<not> CAN_TxReady s" "irqs s = [TxCplt] # r"
  shows "wait_TxReady s = Some (s\<lparr>irqs := r, clock_ms := clock_ms s + 5, CAN_TxReady := True\<rparr>)"
proof -
  have d: "HAL_Delay 5 s = s\<lparr>irqs := r, clock_ms := clock_ms s + 5, CAN_TxReady := True\<rparr>"
    using assms by (simp add: HAL_Delay_def HAL_CAN_TxCpltCallback_def)
  have "wait_TxReady s = wait_TxReady (HAL_Delay 5 s)"
    using assms by (simp add: wait_TxReady.simps[of s])
  also have "\<dots> = Some (HAL_Delay 5 s)"
    unfolding d by (subst wait_TxReady.simps) simp
  finally show ?thesis by (simp add: d)
qed

lemma wait_SDORcvFlag_RxCplt:
  assumes "\<not> SDORcvFlag (epos s)" "irqs s = [RxCplt m] # r" "addressed m SDO (epos s)"
  shows "wait_SDORcvFlag s =
    Some (s\<lparr>irqs := r, clock_ms := clock_ms s + 1, CAN_RxReady := True,
            epos := decodePDO ((epos s)\<lparr>SDOMsg := m, SDORcvFlag := True\<rparr>)\<rparr>)"
proof -
  let ?s = "s\<lparr>irqs := r, clock_ms := clock_ms s + 1, CAN_RxReady := True,
            epos := decodePDO ((epos s)\<lparr>SDOMsg := m, SDORcvFlag := True\<rparr>)\<rparr>"
  have st: "step m (epos s) = (epos s)\<lparr>SDOMsg := m, SDORcvFlag := True\<rparr>"
    using claim_addressed[OF assms(3)] by (simp add: step_def)
  have d: "HAL_Delay 1 s = ?s"
    using assms(2) by (simp add: HAL_Delay_def RxCplt_eq st)
  have "wait_SDORcvFlag s = wait_SDORcvFlag (HAL_Delay 1 s)"
    using assms by (simp add: wait_SDORcvFlag.simps[of s])
  also have "\<dots> = Some ?s"
    unfolding d by (subst wait_SDORcvFlag.simps) (simp add: decodePDO_core)
  finally show ?thesis .
qed

lemma sendCom_TxCplt:
  assumes "tx_accepted s" "\<not> CAN_TxReady s" "irqs s = [TxCplt] # r"
  shows "\<exists>s'. sendCom Ptr s = Some (1, s') \<and> epos s' = epos s \<and> irqs s' = r
           \<and> \<not> CAN_TxReady s'"
proof -
  obtain s1 where s1: "HAL_CAN_Transmit_IT s = (True, s1)" "epos s1 = epos s" "irqs s1 = irqs s"
     "CAN_TxReady s1 = CAN_TxReady s"
    using assms(1)
    by (auto simp: HAL_CAN_Transmit_IT_def tx_accepted_def split: list.splits)
  from wait_TxReady_TxCplt[of s1 r] s1 assms
  show ?thesis by (simp add: sendCom_def)
qed

lemma readAnswer_RxCplt:
  assumes "\<not> SDORcvFlag (epos s)" "irqs s = [RxCplt m] # r" "addressed m SDO (epos s)"
  shows "\<exists>s'. readAnswer Ptr s = Some (1, s') \<and> SDOMsg (epos s') = m \<and> irqs s' = r
           \<and> \<not> SDORcvFlag (epos s') \<and> CAN_TxReady s' = CAN_TxReady s"
proof -
  let ?s0 = "s\<lparr>epos := (epos s)\<lparr>E_error := 0\<rparr>\<rparr>"
  have "addressed m SDO (epos ?s0)" using assms(3) by (simp add: addressed_def)
  from wait_SDORcvFlag_RxCplt[of ?s0 m r, OF _ _ this] assms
  show ?thesis by (simp add: readAnswer_def Let_def decodePDO_core)
qed

lemma WriteObject_answered:
  assumes "tx_accepted s" "\<not> CAN_TxReady s" "\<not> SDORcvFlag (epos s)"
    "irqs s = answered m @ r" "addressed m SDO (epos s)"
  shows "\<exists>n s'. WriteObject Ptr Index SubIndex param s = Some (n, s') \<and> SDOMsg (epos s') = m
           \<and> irqs s' = r \<and> \<not> SDORcvFlag (epos s') \<and> \<not> CAN_TxReady s'"
proof -
  let ?rq = "sdo_request (Node_ID (epos s)) 0x22 Index SubIndex
            [ucast (fst param AND 0xFF), ucast (drop_bit 8 (fst param AND 0xFF00)),
             ucast (snd param AND 0xFF), ucast (drop_bit 8 (snd param AND 0xFF00))]"
  let ?s1 = "s\<lparr>epos := (epos s)\<lparr>TxMessage := ?rq\<rparr>\<rparr>"
  have "tx_accepted ?s1" "\<not> CAN_TxReady ?s1" "irqs ?s1 = [TxCplt] # [RxCplt m] # r"
    using assms by (simp_all add: tx_accepted_def answered_def)
  from sendCom_TxCplt[OF this] obtain s2 where s2: "sendCom Ptr ?s1 = Some (1, s2)"
    "epos s2 = epos ?s1" "irqs s2 = [RxCplt m] # r" "\<not> CAN_TxReady s2" by blast
  have "\<not> SDORcvFlag (epos s2)" "addressed m SDO (epos s2)"
    using s2(2) assms by (simp_all add: addressed_def)
  from readAnswer_RxCplt[OF this(1) s2(3) this(2)] obtain s3 where
    s3: "readAnswer Ptr s2 = Some (1, s3)" "SDOMsg (epos s3) = m" "irqs s3 = r"
      "\<not> SDORcvFlag (epos s3)" "CAN_TxReady s3 = CAN_TxReady s2" by blast
  have "WriteObject Ptr Index SubIndex param s = Some (checkEPOSerror Ptr s3, s3)"
    using s2(1) s3(1) by (simp add: WriteObject_def Let_def)
  with s3 s2(4) show ?thesis by simp
qed

lemma ReadObject_answered:
  assumes "tx_accepted s" "\<not> CAN_TxReady s" "\<not> SDORcvFlag (epos s)"
    "irqs s = answered m @ r" "addressed m SDO (epos s)"
  shows "\<exists>s'. ReadObject Ptr Index SubIndex param s = Some (1, le32 (Data m) 4, s')
           \<and> SDOMsg (epos s') = m
           \<and> irqs s' = r \<and> \<not> SDORcvFlag (epos s') \<and> \<not> CAN_TxReady s'"
proof -
  let ?rq = "sdo_request (Node_ID (epos s)) 0x40 Index SubIndex [0, 0, 0, 0]"
  let ?s1 = "s\<lparr>SDOBusy := True, epos := (epos s)\<lparr>TxMessage := ?rq\<rparr>\<rparr>"
  have "tx_accepted ?s1" "\<not> CAN_TxReady ?s1" "irqs ?s1 = [TxCplt] # [RxCplt m] # r"
    using assms by (simp_all add: tx_accepted_def answered_def)
  from sendCom_TxCplt[OF this] obtain s2 where s2: "sendCom Ptr ?s1 = Some (1, s2)"
    "epos s2 = epos ?s1" "irqs s2 = [RxCplt m] # r" "\<not> CAN_TxReady s2" by blast
  have "\<not> SDORcvFlag (epos s2)" "addressed m SDO (epos s2)"
    using s2(2) assms by (simp_all add: addressed_def)
  from readAnswer_RxCplt[OF this(1) s2(3) this(2)] obtain s3 where
    s3: "readAnswer Ptr s2 = Some (1, s3)" "SDOMsg (epos s3) = m" "irqs s3 = r"
      "\<not> SDORcvFlag (epos s3)" "CAN_TxReady s3 = CAN_TxReady s2" by blast
  have "ReadObject Ptr Index SubIndex param s
      = Some (1, le32 (Data (SDOMsg (epos s3))) 4, s3\<lparr>SDOBusy := False\<rparr>)"
    using s2(1) s3(1) by (simp add: ReadObject_def Let_def)
  with s3 s2(4) show ?thesis by simp
qed


text \<open>
  Claim C1 at a failing input. Node 1 answers the read of object \<open>0x6041\<close> with an abort
  frame that carries the code \<open>0x06090030\<close>. \<^verbatim>\<open>ReadObject\<close> returns 1, which its callers
  take for success, and \<^verbatim>\<open>readStatusword\<close> returns 0 with the low half of the abort
  code, \<open>0x0030\<close>, as the status word; the abort code is in \<^verbatim>\<open>E_error\<close>.
\<close>

theorem read_abort_returns_success:
  "map_option fst (ReadObject Ptr 0x6041 0x00 0
      (idle_sys 1 [] (answered (frame 0x581 [0x80, 0x41, 0x60, 0x00, 0x30, 0x00, 0x09, 0x06]))))
     = Some 1
   \<and> map_option fst (readStatusword Ptr 0
      (idle_sys 1 [] (answered (frame 0x581 [0x80, 0x41, 0x60, 0x00, 0x30, 0x00, 0x09, 0x06]))))
     = Some 0
   \<and> map_option (fst \<circ> snd) (readStatusword Ptr 0
      (idle_sys 1 [] (answered (frame 0x581 [0x80, 0x41, 0x60, 0x00, 0x30, 0x00, 0x09, 0x06]))))
     = Some 0x0030
   \<and> map_option (E_error \<circ> epos \<circ> snd \<circ> snd) (readStatusword Ptr 0
      (idle_sys 1 [] (answered (frame 0x581 [0x80, 0x41, 0x60, 0x00, 0x30, 0x00, 0x09, 0x06]))))
     = Some 0x06090030"
  by code_simp









section \<open>The state-transition encoder\<close>

lemma controlword_of_target: "controlword_of (target_code t) = Some (ucast (literal t))"
  by (cases t)
     (simp_all add: controlword_of_def E_BIT15_def E_BIT07_def E_BIT03_def E_BIT02_def
        E_BIT01_def E_BIT00_def)


text \<open>
  Claim C5. For each of the seven targets \<^verbatim>\<open>changeEPOSstate\<close> fills the transmit buffer
  with the write request for object \<open>0x6040\<close>, subindex 0, that carries the literal of the
  target, whatever the state of the driver and of the device was before; it hands this
  one frame to the peripheral and no other, so no read request goes out before the write.
  And it returns when the transmission completes and an answer on the SDO channel of the
  device arrives.
\<close>

theorem changeEPOSstate_writes_literal:
  "(changeEPOSstate Ptr (target_code t) s = Some (n, s') \<longrightarrow>
      TxMessage (epos s') =
        \<lparr>StdId = 0x600 + ucast (Node_ID (epos s)), IDE = 0, RTR = 0, DLC = 8,
         Data = [0x22, 0x40, 0x60, 0x00, literal t, 0, 0, 0]\<rparr>
      \<and> wire s' = wire s @ (if tx_accepted s then [TxMessage (epos s')] else []))
   \<and> (tx_accepted s \<and> \<not> CAN_TxReady s \<and> \<not> SDORcvFlag (epos s) \<and> irqs s = answered m @ r
        \<and> addressed m SDO (epos s)
      \<longrightarrow> (\<exists>n s'. changeEPOSstate Ptr (target_code t) s = Some (n, s')))"
proof (intro conjI impI)
  assume a: "changeEPOSstate Ptr (target_code t) s = Some (n, s')"
  then obtain k where k: "WriteObject Ptr 0x6040 0x00 (ucast (literal t), 0x0000) s = Some (k, s')"
    by (auto simp: changeEPOSstate_def controlword_of_target split: bind_splits if_splits)
  have b: "ucast ((ucast (literal t) :: 16 word) AND 0xFF) = literal t
         \<and> (ucast (drop_bit 8 ((ucast (literal t) :: 16 word) AND 0xFF00)) :: 8 word) = 0"
    by (cases t) simp_all
  from WriteObject_Ptr[OF k] b
  show "TxMessage (epos s') =
        \<lparr>StdId = 0x600 + ucast (Node_ID (epos s)), IDE = 0, RTR = 0, DLC = 8,
         Data = [0x22, 0x40, 0x60, 0x00, literal t, 0, 0, 0]\<rparr>"
    by (simp add: sdo_request_def CAN_ID_STD_def CAN_RTR_DATA_def)
  from WriteObject_Ptr[OF k]
  show "wire s' = wire s @ (if tx_accepted s then [TxMessage (epos s')] else [])"
    by (simp split: if_splits)
next
  assume a: "tx_accepted s \<and> \<not> CAN_TxReady s \<and> \<not> SDORcvFlag (epos s) \<and> irqs s = answered m @ r
        \<and> addressed m SDO (epos s)"
  with WriteObject_answered[of s m r "0x6040" "0x00" "(ucast (literal t), 0x0000)"]
  obtain k s' where "WriteObject Ptr 0x6040 0x00 (ucast (literal t), 0x0000) s = Some (k, s')"
    by blast
  then show "\<exists>n s'. changeEPOSstate Ptr (target_code t) s = Some (n, s')"
    by (simp add: changeEPOSstate_def controlword_of_target)
qed

theorem changeEPOSstate_writes_literal_witness:
  "tx_accepted (idle_sys 1 [] (answered (frame 0x581 [0x60, 0x40, 0x60, 0x00, 0, 0, 0, 0])))
   \<and> (\<exists>n s'. changeEPOSstate Ptr (target_code EnableOperation)
         (idle_sys 1 [] (answered (frame 0x581 [0x60, 0x40, 0x60, 0x00, 0, 0, 0, 0])))
        = Some (n, s')
      \<and> wire s' = [\<lparr>StdId = 0x601, IDE = 0, RTR = 0, DLC = 8,
                     Data = [0x22, 0x40, 0x60, 0x00, 0x0F, 0, 0, 0]\<rparr>])"
proof -
  let ?m = "frame 0x581 [0x60, 0x40, 0x60, 0x00, 0, 0, 0, 0]"
  let ?s = "idle_sys 1 [] (answered ?m)"
  have t: "tx_accepted ?s" by (simp add: tx_accepted_def idle_sys_def)
  have h: "tx_accepted ?s \<and> \<not> CAN_TxReady ?s \<and> \<not> SDORcvFlag (epos ?s) \<and> irqs ?s = answered ?m @ []
    \<and> addressed ?m SDO (epos ?s)"
    using t by (simp add: idle_sys_def idle_epos_def addressed_def frame_def)
  from changeEPOSstate_writes_literal[where t=EnableOperation and s="?s" and m="?m" and r="[]"] h
  obtain n s' where c: "changeEPOSstate Ptr (target_code EnableOperation) ?s = Some (n, s')"
    by blast
  from changeEPOSstate_writes_literal[where t=EnableOperation and s="?s" and n=n and s'=s'] c t
  have "wire s' = [\<lparr>StdId = 0x601, IDE = 0, RTR = 0, DLC = 8,
                     Data = [0x22, 0x40, 0x60, 0x00, 0x0F, 0, 0, 0]\<rparr>]"
    by (simp add: idle_sys_def idle_epos_def)
  with c t show ?thesis by blast
qed

section \<open>One transfer at a time\<close>

lemma busy_fields:
  "CAN_TxReady (busy b s) = CAN_TxReady s" "irqs (busy b s) = irqs s"
  "epos (busy b s) = epos s" "clock_ms (busy b s) = clock_ms s" "hal_tx (busy b s) = hal_tx s"
  "wire (busy b s) = wire s"
  by (simp_all add: busy_def)

lemma busy_updates:
  "(busy b s)\<lparr>irqs := ts, clock_ms := c\<rparr> = busy b (s\<lparr>irqs := ts, clock_ms := c\<rparr>)"
  "(busy b s)\<lparr>clock_ms := c\<rparr> = busy b (s\<lparr>clock_ms := c\<rparr>)"
  "(busy b s)\<lparr>epos := e\<rparr> = busy b (s\<lparr>epos := e\<rparr>)"
  "(busy b s)\<lparr>CAN_TxReady := x\<rparr> = busy b (s\<lparr>CAN_TxReady := x\<rparr>)"
  "(busy b s)\<lparr>hal_tx := h\<rparr> = busy b (s\<lparr>hal_tx := h\<rparr>)"
  "(busy b s)\<lparr>hal_tx := h, wire := w\<rparr> = busy b (s\<lparr>hal_tx := h, wire := w\<rparr>)"
  "(busy b s)\<lparr>wire := w\<rparr> = busy b (s\<lparr>wire := w\<rparr>)"
  by (simp_all add: busy_def)

lemma handle_busy: "handle i (busy b s) = busy b (handle i s)"
  by (cases i) (simp_all add: busy_def HAL_CAN_TxCpltCallback_def RxCplt_eq)

lemma fold_handle_busy: "fold handle t (busy b s) = busy b (fold handle t s)"
  by (induction t arbitrary: s) (simp_all add: handle_busy)

lemma HAL_Delay_busy: "HAL_Delay ms (busy b s) = busy b (HAL_Delay ms s)"
proof (cases "irqs s")
  case Nil
  then show ?thesis by (simp add: HAL_Delay_def busy_fields busy_updates)
next
  case (Cons t ts)
  then show ?thesis
    by (simp add: HAL_Delay_def busy_fields busy_updates fold_handle_busy)
qed

lemma wait_TxReady_busy: "wait_TxReady (busy b s) = map_option (busy b) (wait_TxReady s)"
proof (induction s rule: wait_TxReady.induct)
  case (1 s)
  show ?case
  proof (cases "CAN_TxReady s \<or> irqs s = []")
    case True
    then show ?thesis
      by (auto simp: wait_TxReady.simps[of s] wait_TxReady.simps[of "busy b s"] busy_fields)
  next
    case False
    then have "wait_TxReady (busy b s) = wait_TxReady (HAL_Delay 5 (busy b s))"
      by (simp add: wait_TxReady.simps[of "busy b s"] busy_fields)
    also have "\<dots> = map_option (busy b) (wait_TxReady (HAL_Delay 5 s))"
      using "1.IH" False by (simp add: HAL_Delay_busy)
    finally show ?thesis using False by (simp add: wait_TxReady.simps[of s])
  qed
qed

lemma wait_SDORcvFlag_busy:
  "wait_SDORcvFlag (busy b s) = map_option (busy b) (wait_SDORcvFlag s)"
proof (induction s rule: wait_SDORcvFlag.induct)
  case (1 s)
  show ?case
  proof (cases "SDORcvFlag (epos s) \<or> irqs s = []")
    case True
    then show ?thesis
      by (auto simp: wait_SDORcvFlag.simps[of s] wait_SDORcvFlag.simps[of "busy b s"] busy_fields)
  next
    case False
    then have "wait_SDORcvFlag (busy b s) = wait_SDORcvFlag (HAL_Delay 1 (busy b s))"
      by (simp add: wait_SDORcvFlag.simps[of "busy b s"] busy_fields)
    also have "\<dots> = map_option (busy b) (wait_SDORcvFlag (HAL_Delay 1 s))"
      using "1.IH" False by (simp add: HAL_Delay_busy)
    finally show ?thesis using False by (simp add: wait_SDORcvFlag.simps[of s])
  qed
qed

lemma sendCom_busy: "sendCom p (busy b s) = map_option (apsnd (busy b)) (sendCom p s)"
proof (cases p)
  case NULL
  then show ?thesis by (simp add: sendCom_def)
next
  case Ptr
  obtain ok s1 where h: "HAL_CAN_Transmit_IT s = (ok, s1)" by (cases "HAL_CAN_Transmit_IT s")
  then have h': "HAL_CAN_Transmit_IT (busy b s) = (ok, busy b s1)"
    by (auto simp: HAL_CAN_Transmit_IT_def busy_fields busy_updates split: list.splits if_splits)
  show ?thesis
  proof (cases ok)
    case True
    with Ptr h h' show ?thesis
      by (cases "wait_TxReady s1") (simp_all add: sendCom_def wait_TxReady_busy busy_updates)
  next
    case False
    with Ptr h h' show ?thesis by (simp add: sendCom_def)
  qed
qed

lemma readAnswer_busy: "readAnswer p (busy b s) = map_option (apsnd (busy b)) (readAnswer p s)"
proof (cases p)
  case NULL
  then show ?thesis by (simp add: readAnswer_def)
next
  case Ptr
  show ?thesis
    using Ptr
    by (cases "wait_SDORcvFlag (s\<lparr>epos := (epos s)\<lparr>E_error := 0\<rparr>\<rparr>)")
       (simp_all add: readAnswer_def Let_def busy_fields busy_updates wait_SDORcvFlag_busy)
qed

lemma WriteObject_busy:
  "WriteObject p Index SubIndex w (busy b s) = map_option (apsnd (busy b)) (WriteObject p Index SubIndex w s)"
proof (cases p)
  case NULL
  then show ?thesis by (simp add: WriteObject_def)
next
  case Ptr
  let ?f = "\<lambda>s. s\<lparr>epos := (epos s)\<lparr>TxMessage :=
                  sdo_request (Node_ID (epos s)) 0x22 Index SubIndex
                    [ucast (fst w AND 0xFF), ucast (drop_bit 8 (fst w AND 0xFF00)),
                     ucast (snd w AND 0xFF), ucast (drop_bit 8 (snd w AND 0xFF00))]\<rparr>\<rparr>"
  have e: "?f (busy b s) = busy b (?f s)" by (simp add: busy_fields busy_updates)
  have c: "checkEPOSerror Ptr (busy b x) = checkEPOSerror Ptr x" for x
    by (simp add: checkEPOSerror_def busy_def)
  show ?thesis
  proof (cases "sendCom Ptr (?f s)")
    case None
    then show ?thesis using Ptr unfolding WriteObject_def Let_def e sendCom_busy by simp
  next
    case (Some a)
    obtain n s2 where a: "a = (n, s2)" by (cases a)
    show ?thesis
    proof (cases "readAnswer Ptr s2")
      case None
      then show ?thesis using Ptr Some a unfolding WriteObject_def Let_def e sendCom_busy
        by (simp add: readAnswer_busy)
    next
      case (Some a')
      obtain n' s3 where a': "a' = (n', s3)" by (cases a')
      show ?thesis using Ptr \<open>sendCom Ptr (?f s) = Some a\<close> a Some a'
        unfolding WriteObject_def Let_def e sendCom_busy
        by (simp add: readAnswer_busy c)
    qed
  qed
qed

text \<open>
  Claim C7, as the code has it. Neither function tests \<^verbatim>\<open>SDOBusy\<close>: \<^verbatim>\<open>ReadObject\<close> runs
  the same whatever the flag is, and \<^verbatim>\<open>WriteObject\<close> runs the same and hands the flag
  through unchanged. \<^verbatim>\<open>ReadObject\<close> leaves the flag clear when it returns after an
  answer and set when the peripheral has refused its request. A call made while the
  transmission completes and any frame on the SDO channel of the device arrives takes
  that frame as its answer, with no look at its index and subindex and whether or not
  \<^verbatim>\<open>SDOBusy\<close> is set: it is neither rejected nor queued.
\<close>

theorem SDOBusy_not_tested:
  "ReadObject Ptr Index SubIndex param (s\<lparr>SDOBusy := b\<rparr>) = ReadObject Ptr Index SubIndex param s
   \<and> WriteObject Ptr Index SubIndex w (s\<lparr>SDOBusy := b\<rparr>)
     = map_option (apsnd (SDOBusy_update (\<lambda>_. b))) (WriteObject Ptr Index SubIndex w s)
   \<and> (WriteObject Ptr Index SubIndex w s = Some (n', s'') \<longrightarrow> SDOBusy s'' = SDOBusy s)
   \<and> (ReadObject Ptr Index SubIndex param s = Some (n, v, s') \<longrightarrow>
        SDOBusy s' = (\<not> tx_accepted s) \<and> n = (if tx_accepted s then 1 else -1))
   \<and> (tx_accepted s \<and> \<not> CAN_TxReady s \<and> \<not> SDORcvFlag (epos s) \<and> irqs s = answered m @ r
        \<and> addressed m SDO (epos s) \<longrightarrow>
      (\<exists>s'. ReadObject Ptr Index SubIndex param s
               = Some (1, le_bytes (Data m ! 4) (Data m ! 5) (Data m ! 6) (Data m ! 7), s')
         \<and> SDOMsg (epos s') = m \<and> \<not> SDOBusy s')
      \<and> (\<exists>n s'. WriteObject Ptr Index SubIndex w s = Some (n, s') \<and> SDOMsg (epos s') = m
         \<and> SDOBusy s' = SDOBusy s))"
proof -
  have bb: "busy b = SDOBusy_update (\<lambda>_. b)" for b by (simp add: busy_def fun_eq_iff)
  have 1: "ReadObject Ptr Index SubIndex param (s\<lparr>SDOBusy := b\<rparr>)
      = ReadObject Ptr Index SubIndex param s"
    by (simp add: ReadObject_def)
  have 2: "WriteObject Ptr Index SubIndex w (s\<lparr>SDOBusy := b\<rparr>)
     = map_option (apsnd (SDOBusy_update (\<lambda>_. b))) (WriteObject Ptr Index SubIndex w s)" for b
    using WriteObject_busy[of Ptr Index SubIndex w b s] by (simp add: bb)
  have 3: "SDOBusy s'' = SDOBusy s" if "WriteObject Ptr Index SubIndex w s = Some (n', s'')"
    for n' s''
  proof -
    have "s\<lparr>SDOBusy := SDOBusy s\<rparr> = s" by simp
    with 2[of "SDOBusy s"] that have "Some (n', s'') = Some (n', s''\<lparr>SDOBusy := SDOBusy s\<rparr>)"
      by simp
    then have "s'' = s''\<lparr>SDOBusy := SDOBusy s\<rparr>" by simp
    then have "SDOBusy s'' = SDOBusy (s''\<lparr>SDOBusy := SDOBusy s\<rparr>)" by simp
    then show ?thesis by simp
  qed
  have 4: "SDOBusy s' = (\<not> tx_accepted s) \<and> n = (if tx_accepted s then 1 else -1)"
    if "ReadObject Ptr Index SubIndex param s = Some (n, v, s')"
    using ReadObject_Ptr[OF that] by (simp split: if_splits)
  have 5: "(\<exists>s'. ReadObject Ptr Index SubIndex param s
               = Some (1, le_bytes (Data m ! 4) (Data m ! 5) (Data m ! 6) (Data m ! 7), s')
         \<and> SDOMsg (epos s') = m \<and> \<not> SDOBusy s')
      \<and> (\<exists>n s'. WriteObject Ptr Index SubIndex w s = Some (n, s') \<and> SDOMsg (epos s') = m
         \<and> SDOBusy s' = SDOBusy s)"
    if a: "tx_accepted s \<and> \<not> CAN_TxReady s \<and> \<not> SDORcvFlag (epos s) \<and> irqs s = answered m @ r
        \<and> addressed m SDO (epos s)"
  proof
    from a ReadObject_answered[of s m r Index SubIndex param, unfolded le32_at]
    obtain s1 where r: "ReadObject Ptr Index SubIndex param s
        = Some (1, le_bytes (Data m ! 4) (Data m ! 5) (Data m ! 6) (Data m ! 7), s1)"
      "SDOMsg (epos s1) = m" by blast
    from ReadObject_Ptr[OF r(1)] a have "\<not> SDOBusy s1" by simp
    with r show "\<exists>s'. ReadObject Ptr Index SubIndex param s
               = Some (1, le_bytes (Data m ! 4) (Data m ! 5) (Data m ! 6) (Data m ! 7), s')
         \<and> SDOMsg (epos s') = m \<and> \<not> SDOBusy s'" by blast
  next
    from a WriteObject_answered[of s m r Index SubIndex w]
    obtain n2 s2 where w: "WriteObject Ptr Index SubIndex w s = Some (n2, s2)"
      "SDOMsg (epos s2) = m" by blast
    with 3[OF w(1)] show "\<exists>n s'. WriteObject Ptr Index SubIndex w s = Some (n, s')
        \<and> SDOMsg (epos s') = m \<and> SDOBusy s' = SDOBusy s" by blast
  qed
  from 1 2[of b] 3 4 5 show ?thesis by blast
qed


theorem SDOBusy_not_tested_witness:
  "tx_accepted ((idle_sys 1 [] (answered (frame 0x581 [0x4B, 0x41, 0x60, 0x00, 0x37, 0x12, 0, 0])))
      \<lparr>SDOBusy := True\<rparr>)
   \<and> SDOBusy ((idle_sys 1 [] (answered (frame 0x581 [0x4B, 0x41, 0x60, 0x00, 0x37, 0x12, 0, 0])))
      \<lparr>SDOBusy := True\<rparr>)
   \<and> (\<exists>s'. ReadObject Ptr 0x6064 0x00 0
         ((idle_sys 1 [] (answered (frame 0x581 [0x4B, 0x41, 0x60, 0x00, 0x37, 0x12, 0, 0])))
            \<lparr>SDOBusy := True\<rparr>) = Some (1, 0x1237, s')
        \<and> SDOMsg (epos s') = frame 0x581 [0x4B, 0x41, 0x60, 0x00, 0x37, 0x12, 0, 0]
        \<and> \<not> SDOBusy s')
   \<and> (\<exists>n s'. WriteObject Ptr 0x6064 0x00 (1, 0)
         ((idle_sys 1 [] (answered (frame 0x581 [0x4B, 0x41, 0x60, 0x00, 0x37, 0x12, 0, 0])))
            \<lparr>SDOBusy := True\<rparr>) = Some (n, s')
        \<and> SDOMsg (epos s') = frame 0x581 [0x4B, 0x41, 0x60, 0x00, 0x37, 0x12, 0, 0]
        \<and> SDOBusy s')"
proof -
  let ?m = "frame 0x581 [0x4B, 0x41, 0x60, 0x00, 0x37, 0x12, 0, 0]"
  let ?s = "(idle_sys 1 [] (answered ?m))\<lparr>SDOBusy := True\<rparr>"
  have t: "tx_accepted ?s" and b: "SDOBusy ?s" by (simp_all add: tx_accepted_def idle_sys_def)
  have h: "tx_accepted ?s \<and> \<not> CAN_TxReady ?s \<and> \<not> SDORcvFlag (epos ?s)
      \<and> irqs ?s = answered ?m @ [] \<and> addressed ?m SDO (epos ?s)"
    using t by (simp add: idle_sys_def idle_epos_def addressed_def frame_def)
  have v: "le_bytes (Data ?m ! 4) (Data ?m ! 5) (Data ?m ! 6) (Data ?m ! 7) = 0x1237"
    by (simp add: le_bytes_def frame_def)
  from SDOBusy_not_tested[where s="?s" and m="?m" and r="[]" and Index="0x6064"
      and SubIndex="0x00" and param=0 and w="(1, 0)"] h
  obtain s1 n2 s2 where r: "ReadObject Ptr 0x6064 0x00 0 ?s
      = Some (1, le_bytes (Data ?m ! 4) (Data ?m ! 5) (Data ?m ! 6) (Data ?m ! 7), s1)"
    "SDOMsg (epos s1) = ?m" "\<not> SDOBusy s1"
    and w: "WriteObject Ptr 0x6064 0x00 (1, 0) ?s = Some (n2, s2)" "SDOMsg (epos s2) = ?m"
      "SDOBusy s2 = SDOBusy ?s"
    by blast
  from SDOBusy_not_tested[where s="?s" and Index="0x6064" and SubIndex="0x00" and param=0
      and w="(1, 0)" and n=1 and v="0x1237" and s'=s1 and n'=n2 and s''=s2] r(1) w(1) v t
  have c: "SDOBusy s2 = SDOBusy ?s \<and> SDOBusy s1 = (\<not> tx_accepted ?s)" by simp
  from r v have r': "ReadObject Ptr 0x6064 0x00 0 ?s = Some (1, 0x1237, s1)" by simp
  from t b r' r(2,3) w c show ?thesis by blast
qed

text \<open>
  The claim as stated has a second call rejected or queued. A read of object \<open>0x6041\<close> of
  node 1 has sent its request and \<^verbatim>\<open>SDOBusy\<close> is set, when a second call reads
  object \<open>0x6064\<close>. The second request goes out on the wire; the answer to the first
  request arrives with the value \<open>0x1237\<close>, and the second call returns 1 with this value.
  The wait of the first call, resumed afterwards, never ends.
\<close>

theorem second_call_counterexample:
  "map_option SDOBusy
     (ReadObject_pending 0x6041 0x00
        (idle_sys 1 [] ([TxCplt] # answered (frame 0x581 [0x4B, 0x41, 0x60, 0x00, 0x37, 0x12, 0, 0]))))
     = Some True
   \<and> map_option fst
     (ReadObject_pending 0x6041 0x00
        (idle_sys 1 [] ([TxCplt] # answered (frame 0x581 [0x4B, 0x41, 0x60, 0x00, 0x37, 0x12, 0, 0])))
      \<bind> ReadObject Ptr 0x6064 0x00 0) = Some 1
   \<and> map_option (fst \<circ> snd)
     (ReadObject_pending 0x6041 0x00
        (idle_sys 1 [] ([TxCplt] # answered (frame 0x581 [0x4B, 0x41, 0x60, 0x00, 0x37, 0x12, 0, 0])))
      \<bind> ReadObject Ptr 0x6064 0x00 0) = Some 0x1237
   \<and> map_option (map Data \<circ> wire \<circ> snd \<circ> snd)
     (ReadObject_pending 0x6041 0x00
        (idle_sys 1 [] ([TxCplt] # answered (frame 0x581 [0x4B, 0x41, 0x60, 0x00, 0x37, 0x12, 0, 0])))
      \<bind> ReadObject Ptr 0x6064 0x00 0)
     = Some [[0x40, 0x41, 0x60, 0x00, 0, 0, 0, 0], [0x40, 0x64, 0x60, 0x00, 0, 0, 0, 0]]
   \<and> (ReadObject_pending 0x6041 0x00
        (idle_sys 1 [] ([TxCplt] # answered (frame 0x581 [0x4B, 0x41, 0x60, 0x00, 0x37, 0x12, 0, 0])))
      \<bind> ReadObject Ptr 0x6064 0x00 0 \<bind> (readAnswer Ptr \<circ> snd \<circ> snd)) = None"
  by code_simp

section \<open>Waiting and homing\<close>

text \<open>
  Claim C8 at a failing input. \<^verbatim>\<open>waitForTarget\<close> is called with a timeout of 2 and the
  device answers every read of the status word at once with \<open>0x0237\<close>, target not
  reached. The function returns 1 after two polls, when the driver has slept 112
  milliseconds in all: 50 before each poll and 6 in each transfer. The unit of the timeout
  is one round of the loop with its \<^verbatim>\<open>HAL_Delay(50)\<close>, not one second.
\<close>

theorem waitForTarget_timeout_in_polls:
  "map_option fst
     (waitForTarget 3 Ptr 2 0
        (idle_sys 1 []
           (concat (replicate 2
              ([] # answered (frame 0x581 [0x4B, 0x41, 0x60, 0x00, 0x37, 0x02, 0, 0]))))))
     = Some 1
   \<and> map_option (clock_ms \<circ> snd)
     (waitForTarget 3 Ptr 2 0
        (idle_sys 1 []
           (concat (replicate 2
              ([] # answered (frame 0x581 [0x4B, 0x41, 0x60, 0x00, 0x37, 0x02, 0, 0]))))))
     = Some 112"
  by code_simp

lemma monitorHomingStatus_loop_result:
  "monitorHomingStatus_loop k p status s = Some (r, status', s') \<Longrightarrow> r = None \<or> r = Some (-2)"
proof (induction k arbitrary: status s)
  case 0
  then show ?case by simp
next
  case (Suc k)
  from Suc.prems Suc.IH show ?case
    by (auto split: bind_splits if_splits)
qed

lemma monitorHomingStatus_result:
  assumes "monitorHomingStatus k p s = Some (n, s')"
  shows "n = 0 \<or> n = -1 \<or> n = -2"
proof (cases p)
  case NULL
  with assms show ?thesis by (simp add: monitorHomingStatus_def)
next
  case Ptr
  with assms obtain r st s1 where l: "monitorHomingStatus_loop k p 0x0 s = Some (r, st, s1)"
    by (auto simp: monitorHomingStatus_def split: bind_splits)
  from monitorHomingStatus_loop_result[OF l] show ?thesis
  proof
    assume "r = None"
    with assms Ptr l show ?thesis
      by (auto simp: monitorHomingStatus_def split: bind_splits)
  next
    assume "r = Some (-2)"
    with assms Ptr l show ?thesis
      by (auto simp: monitorHomingStatus_def split: bind_splits)
  qed
qed

text \<open>
  Claim C9. Whenever \<^verbatim>\<open>monitorHomingStatus\<close> returns, it returns 0, \<open>-1\<close> or \<open>-2\<close>,
  never 1. \<^verbatim>\<open>doHoming\<close> returns 2 in the branch \<^verbatim>\<open>status == 1\<close> only, so it never
  returns 2: the branch is not reachable.
\<close>

theorem monitorHomingStatus_never_one:
  "(monitorHomingStatus k p s = Some (n, s') \<longrightarrow> n \<noteq> 1 \<and> (n = 0 \<or> n = -1 \<or> n = -2))
   \<and> (doHoming k p hm start junk s = Some (r, s'') \<longrightarrow> r \<noteq> 2)"
proof (rule conjI; rule impI)
  assume "monitorHomingStatus k p s = Some (n, s')"
  from monitorHomingStatus_result[OF this]
  show "n \<noteq> 1 \<and> (n = 0 \<or> n = -1 \<or> n = -2)" by auto
next
  assume d: "doHoming k p hm start junk s = Some (r, s'')"
  show "r \<noteq> 2"
  proof
    assume "r = 2"
    with d obtain s6 s7 where "monitorHomingStatus k p s6 = Some (1, s7)"
      by (auto simp: doHoming_def split: bind_splits if_splits)
    from monitorHomingStatus_result[OF this] show False by simp
  qed
qed


theorem monitorHomingStatus_never_one_witness:
  "(\<exists>s'. monitorHomingStatus 2 Ptr
       (idle_sys 1 []
          (concat (replicate 9 (answered (frame 0x581 [0x4B, 0x41, 0x60, 0x00, 0x37, 0x15, 0, 0])))))
      = Some (0, s'))
   \<and> (\<exists>s''. doHoming 2 Ptr 35 0 0
       (idle_sys 1 []
          (concat (replicate 3 (answered (frame 0x581 [0x4B, 0x61, 0x60, 0x00, 0x01, 0, 0, 0])))
           @ [[]]
           @ concat (replicate 15 (answered (frame 0x581 [0x4B, 0x41, 0x60, 0x00, 0x37, 0x15, 0, 0])))))
      = Some (0, s''))
   \<and> (0::int) \<noteq> 1 \<and> (0::int) \<noteq> 2"
proof -
  let ?S = "idle_sys 1 []
          (concat (replicate 9 (answered (frame 0x581 [0x4B, 0x41, 0x60, 0x00, 0x37, 0x15, 0, 0]))))"
  let ?T = "idle_sys 1 []
          (concat (replicate 3 (answered (frame 0x581 [0x4B, 0x61, 0x60, 0x00, 0x01, 0, 0, 0])))
           @ [[]]
           @ concat (replicate 15 (answered (frame 0x581 [0x4B, 0x41, 0x60, 0x00, 0x37, 0x15, 0, 0]))))"
  have "map_option fst (monitorHomingStatus 2 Ptr ?S) = Some 0" by code_simp
  then obtain s' where m: "monitorHomingStatus 2 Ptr ?S = Some (0, s')" by auto
  have "map_option fst (doHoming 2 Ptr 35 0 0 ?T) = Some 0" by code_simp
  then obtain s'' where d: "doHoming 2 Ptr 35 0 0 ?T = Some (0, s'')" by auto
  from monitorHomingStatus_never_one[where k=2 and p=Ptr and s="?S" and n=0 and s'=s'] m
  have 1: "(0::int) \<noteq> 1" by blast
  from monitorHomingStatus_never_one[where k=2 and p=Ptr and s="?T" and hm=35 and start=0
      and junk=0 and r=0 and s''=s''] d
  have 2: "(0::int) \<noteq> 2" by blast
  from m d 1 2 show ?thesis by blast
qed

end
